theory Spec2Isabelle
  imports Complex_Main "HOL-Library.Sublist"
begin

section \<open>The orbit camera of \<open>SplatRenderer\<close> and its input handlers\<close>

text \<open>
  The renderer class keeps the camera in the fields \<open>target\<close> (a point), \<open>radius\<close> and
  \<open>camRot\<close> (\<open>x\<close> is the pitch, \<open>y\<close> the yaw), and the drag state in \<open>isDragging\<close>,
  \<open>dragButton\<close> and \<open>lastMouse\<close>. The nested objects are flattened into one record.
  JavaScript numbers are modelled as real numbers: the arithmetic is exact, and the one way
  the handlers have of leaving the finite numbers, a division of zero by zero in the pan
  branch (which yields NaN in the source), is the result \<open>None\<close>.
\<close>

record SplatRenderer =
  target_x :: real
  target_y :: real
  target_z :: real
  radius :: real
  camRot_x :: real
  camRot_y :: real
  isDragging :: bool
  dragButton :: int
  lastMouse_x :: real
  lastMouse_y :: real

text \<open>The field initialisers of the class.\<close>

definition initialRenderer :: SplatRenderer where
  "initialRenderer =
     \<lparr>target_x = 0, target_y = 0, target_z = 0, radius = 5,
      camRot_x = 0, camRot_y = 0,
      isDragging = False, dragButton = -1, lastMouse_x = 0, lastMouse_y = 0\<rparr>"

text \<open>The two ends of the pitch clamp, \<open>-Math.PI / 2 + 0.01\<close> and \<open>Math.PI / 2 - 0.01\<close>.\<close>

definition pitchMin :: real where
  "pitchMin = - pi / 2 + 0.01"

definition pitchMax :: real where
  "pitchMax = pi / 2 - 0.01"

text \<open>The Rotate branch, \<open>dragButton === 0\<close>, of the mousemove handler.\<close>

definition rotateCam :: "SplatRenderer \<Rightarrow> real \<Rightarrow> real \<Rightarrow> SplatRenderer" where
  "rotateCam s dx dy =
     (let x1 = camRot_x s - dy * 0.005;
          y1 = camRot_y s - dx * 0.005
      in s\<lparr>camRot_x := max pitchMin (min pitchMax x1), camRot_y := y1\<rparr>)"

text \<open>
  The Pan branch, \<open>dragButton === 2\<close>, of the mousemove handler. The locals \<open>fwd\<close>, \<open>rx\<close> and
  \<open>rz\<close> of the source are computed and never read; they are left out.
\<close>

definition panCam :: "SplatRenderer \<Rightarrow> real \<Rightarrow> real \<Rightarrow> SplatRenderer option" where
  "panCam s dx dy =
     (let cy = cos (camRot_y s);
          sy = sin (camRot_y s);
          cp = cos (camRot_x s);
          sp = sin (camRot_x s);
          panSpeed = radius s * 0.0015;
          z = radius s;
          cx = cy * cp * z;
          cy_pos = sp * z;
          cz = sy * cp * z;
          up0 = 0; up1 = 1; up2 = 0;
          fwdVec0 = - cx; fwdVec1 = - cy_pos; fwdVec2 = - cz;
          len = sqrt (fwdVec0\<^sup>2 + fwdVec1\<^sup>2 + fwdVec2\<^sup>2)
      in if len = 0 then None
         else
           let f0 = fwdVec0 / len; f1 = fwdVec1 / len; f2 = fwdVec2 / len;
               r0 = up1 * f2 - up2 * f1;
               r1 = up2 * f0 - up0 * f2;
               r2 = up0 * f1 - up1 * f0;
               rLen = sqrt (r0\<^sup>2 + r1\<^sup>2 + r2\<^sup>2)
           in if rLen = 0 then None
              else
                let right0 = r0 / rLen; right1 = r1 / rLen; right2 = r2 / rLen;
                    u0 = f1 * right2 - f2 * right1;
                    u1 = f2 * right0 - f0 * right2;
                    u2 = f0 * right1 - f1 * right0
                in Some (s\<lparr>target_x := target_x s - (right0 * dx - u0 * dy) * panSpeed,
                            target_y := target_y s - (right1 * dx - u1 * dy) * panSpeed,
                            target_z := target_z s - (right2 * dx - u2 * dy) * panSpeed\<rparr>))"

text \<open>The four listeners installed by \<open>initInputHandlers\<close> that touch the state.\<close>

definition mousedown :: "SplatRenderer \<Rightarrow> int \<Rightarrow> real \<Rightarrow> real \<Rightarrow> SplatRenderer" where
  "mousedown s button clientX clientY =
     s\<lparr>isDragging := True, dragButton := button,
       lastMouse_x := clientX, lastMouse_y := clientY\<rparr>"

definition mouseup :: "SplatRenderer \<Rightarrow> SplatRenderer" where
  "mouseup s = s\<lparr>isDragging := False, dragButton := -1\<rparr>"

definition mousemove :: "SplatRenderer \<Rightarrow> real \<Rightarrow> real \<Rightarrow> SplatRenderer option" where
  "mousemove s clientX clientY =
     (if \<not> isDragging s then Some s
      else
        let dx = clientX - lastMouse_x s;
            dy = clientY - lastMouse_y s;
            s1 = s\<lparr>lastMouse_x := clientX, lastMouse_y := clientY\<rparr>
        in if dragButton s1 = 0 then Some (rotateCam s1 dx dy)
           else if dragButton s1 = 2 then panCam s1 dx dy
           else Some s1)"

definition wheel :: "SplatRenderer \<Rightarrow> real \<Rightarrow> SplatRenderer" where
  "wheel s deltaY =
     (let zoomScale = 0.1;
          radius1 = radius s + deltaY * 0.01 * (radius s * zoomScale)
      in s\<lparr>radius := max 0.1 radius1\<rparr>)"

text \<open>A run of Rotate operations, each with its own pair of deltas.\<close>

fun rotates :: "SplatRenderer \<Rightarrow> (real \<times> real) list \<Rightarrow> SplatRenderer" where
  "rotates s [] = s"
| "rotates s ((dx, dy) # ds) = rotates (rotateCam s dx dy) ds"

text \<open>
  The camera states of the data model: a positive radius and a pitch strictly between
  the poles. Every state the handlers can reach from the initial one is of this kind.
\<close>

definition cameraState :: "SplatRenderer \<Rightarrow> bool" where
  "cameraState s \<longleftrightarrow> 0 < radius s \<and> - pi / 2 < camRot_x s \<and> camRot_x s < pi / 2"


section \<open>The PLY decoder \<open>parsePlyFile\<close>\<close>

subsection \<open>Text of the header\<close>

text \<open>
  The file is a list of bytes. \<open>TextDecoder('ascii')\<close> decodes every byte to exactly one
  UTF-16 code unit, so a position in the decoded text is a position in the buffer, and the
  text is modelled by the bytes themselves (\<open>char\<close> is a byte).

  \<open>String.prototype.trim\<close> removes white space and line terminators at both ends. Of the
  decoded code units these are tab, line feed, vertical tab, form feed, carriage return,
  space and the no-break space.
\<close>

definition isWhiteSpace :: "char \<Rightarrow> bool" where
  "isWhiteSpace c \<longleftrightarrow>
     c = CHR 0x09 \<or> c = CHR 0x0A \<or> c = CHR 0x0B \<or> c = CHR 0x0C \<or> c = CHR 0x0D
     \<or> c = CHR 0x20 \<or> c = CHR 0xA0"

definition trim :: "string \<Rightarrow> string" where
  "trim s = rev (dropWhile isWhiteSpace (rev (dropWhile isWhiteSpace s)))"

text \<open>\<open>s.split(sep)\<close> for a separator of one character: the empty string gives \<open>['']\<close>.\<close>

fun splitOn :: "char \<Rightarrow> string \<Rightarrow> string list" where
  "splitOn sep [] = [[]]"
| "splitOn sep (c # cs) =
     (if c = sep then [] # splitOn sep cs
      else (case splitOn sep cs of
              [] \<Rightarrow> [[c]]
            | w # ws \<Rightarrow> (c # w) # ws))"

text \<open>\<open>xs.join(sep)\<close>.\<close>

fun join :: "string \<Rightarrow> string list \<Rightarrow> string" where
  "join sep [] = []"
| "join sep [l] = l"
| "join sep (l # l' # ls) = l @ sep @ join sep (l' # ls)"

definition startsWith :: "string \<Rightarrow> string \<Rightarrow> bool" where
  "startsWith s p = prefix p s"

fun includesStr :: "string \<Rightarrow> string \<Rightarrow> bool" where
  "includesStr [] p = (p = [])"
| "includesStr (c # cs) p = (prefix p (c # cs) \<or> includesStr cs p)"

text \<open>\<open>parts[k]\<close>: \<open>undefined\<close>, here \<open>None\<close>, beyond the end of the array.\<close>

definition nth_opt :: "'a list \<Rightarrow> nat \<Rightarrow> 'a option" where
  "nth_opt xs k = (if k < length xs then Some (xs ! k) else None)"

text \<open>
  \<open>parseInt(s, 10)\<close>: leading white space is skipped, a sign is read, then the longest run
  of decimal digits; with no digit the result is NaN, here \<open>None\<close>, as it is for
  \<open>undefined\<close>. The value is kept as an exact integer (the source rounds integers above
  \<open>2^53\<close> to the nearest double, which the comparison with the cap does not see).
\<close>

definition isDigit :: "char \<Rightarrow> bool" where
  "isDigit c \<longleftrightarrow> (48::nat) \<le> of_char c \<and> of_char c \<le> (57::nat)"

definition digitsValue :: "string \<Rightarrow> int" where
  "digitsValue ds = foldl (\<lambda>acc c. acc * 10 + (int (of_char c) - 48)) 0 ds"

definition parseInt :: "string option \<Rightarrow> int option" where
  "parseInt arg =
     (case arg of
        None \<Rightarrow> None
      | Some inputString \<Rightarrow>
          let S = dropWhile isWhiteSpace inputString;
              negative = (S \<noteq> [] \<and> hd S = CHR ''-'');
              S1 = (if S \<noteq> [] \<and> (hd S = CHR ''+'' \<or> hd S = CHR ''-'') then tl S else S);
              Z = takeWhile isDigit S1
          in if Z = [] then None
             else Some (if negative then - digitsValue Z else digitsValue Z))"

subsection \<open>Scanning the header\<close>

datatype error = Error string | RangeError

record Property =
  name :: "string option"
  type :: "string option"

text \<open>
  The locals of \<open>parsePlyFile\<close> that the header loop reads and writes. The local
  \<open>vertexCount\<close> is the field \<open>declaredCount\<close>: the result has a field \<open>vertexCount\<close>
  of its own.
\<close>

record Scan =
  headerOffset :: nat
  endHeaderIndex :: int
  declaredCount :: "int option"
  isBinary :: bool
  properties :: "Property list"
  inVertexElement :: bool

definition initialScan :: Scan where
  "initialScan =
     \<lparr>headerOffset = 0, endHeaderIndex = -1, declaredCount = Some 0, isBinary = False,
      properties = [], inVertexElement = False\<rparr>"

text \<open>How one pass through the body of a loop ends.\<close>

datatype 'a outcome = Continue 'a | Break 'a | Throw error

text \<open>The body of the header loop at index \<open>i\<close>.\<close>

definition scanLine :: "string list \<Rightarrow> nat \<Rightarrow> Scan \<Rightarrow> Scan outcome" where
  "scanLine headerLines i st =
     (let line = trim (headerLines ! i);
          st1 = st\<lparr>headerOffset := headerOffset st + (length line + 1)\<rparr>
      in if line = ''end_header'' then
           let exactHeaderString = join [CHR 0x0A] (take (i + 1) headerLines) @ [CHR 0x0A]
           in Break (st1\<lparr>endHeaderIndex := int i, headerOffset := length exactHeaderString\<rparr>)
         else if startsWith line ''format'' \<and> \<not> includesStr line ''binary_little_endian 1.0'' then
           Throw (Error ''Unsupported PLY format. Must be binary_little_endian 1.0'')
         else
           let st2 = (if startsWith line ''format'' then st1\<lparr>isBinary := True\<rparr> else st1);
               st3 = (if startsWith line ''element vertex'' then
                        st2\<lparr>declaredCount := parseInt (nth_opt (splitOn CHR '' '' line) 2),
                            inVertexElement := True\<rparr>
                      else if startsWith line ''element'' \<and> \<not> includesStr line ''vertex'' then
                        st2\<lparr>inVertexElement := False\<rparr>
                      else st2);
               st4 = (if inVertexElement st3 \<and> startsWith line ''property'' then
                        let parts = splitOn CHR '' '' line
                        in st3\<lparr>properties :=
                                 properties st3 @ [\<lparr>name = nth_opt parts 2, type = nth_opt parts 1\<rparr>]\<rparr>
                      else st3)
           in Continue st4)"

function scanLoop :: "string list \<Rightarrow> nat \<Rightarrow> Scan \<Rightarrow> error + Scan" where
  "scanLoop headerLines i st =
     (if i < length headerLines then
        (case scanLine headerLines i st of
           Continue st' \<Rightarrow> scanLoop headerLines (i + 1) st'
         | Break st' \<Rightarrow> Inr st'
         | Throw e \<Rightarrow> Inl e)
      else Inr st)"
  by pat_completeness auto
termination
  by (relation "measure (\<lambda>(headerLines, i, st). length headerLines - i)") auto

declare scanLoop.simps [simp del]

text \<open>The first 5000 bytes, split into lines.\<close>

definition headerLinesOf :: "string \<Rightarrow> string list" where
  "headerLinesOf buffer = splitOn (CHR 0x0A) (take 5000 buffer)"


subsection \<open>Numbers\<close>

text \<open>
  The values read from the body are IEEE 754 numbers: finite ones, the two infinities and
  NaN. The operations on doubles are exact in the model up to the point where the source
  overflows to an infinity: their rounding to 53 bits is not modelled, and the sign of
  zero is not kept. The stores into a \<open>Float32Array\<close> are modelled as they are: they
  round to binary32 and overflow to an infinity.
\<close>

datatype number = Num real | PosInf | NegInf | NaN

text \<open>
  \<open>dataView.getFloat32(byteOffset, true)\<close>: a RangeError unless the four bytes lie inside
  the buffer; otherwise the little-endian binary32 value.
\<close>

definition float32OfBits :: "nat \<Rightarrow> number" where
  "float32OfBits bits =
     (let negative = (bits div 2 ^ 31 = 1);
          e = (bits div 2 ^ 23) mod 256;
          m = bits mod 2 ^ 23
      in if e = 255 then (if m = 0 then (if negative then NegInf else PosInf) else NaN)
         else
           let magnitude =
                 (if e = 0 then real m / 2 ^ 149
                  else if 150 \<le> e then real (2 ^ 23 + m) * 2 ^ (e - 150)
                  else real (2 ^ 23 + m) / 2 ^ (150 - e))
           in Num (if negative then - magnitude else magnitude))"

definition getFloat32 :: "string \<Rightarrow> nat \<Rightarrow> error + number" where
  "getFloat32 buffer byteOffset =
     (if length buffer < byteOffset + 4 then Inl RangeError
      else Inr (float32OfBits
                 (of_char (buffer ! byteOffset)
                  + 2 ^ 8 * of_char (buffer ! (byteOffset + 1))
                  + 2 ^ 16 * of_char (buffer ! (byteOffset + 2))
                  + 2 ^ 24 * of_char (buffer ! (byteOffset + 3)))))"

text \<open>2 to an integer power.\<close>

definition pow2 :: "int \<Rightarrow> real" where
  "pow2 e = (if 0 \<le> e then 2 ^ nat e else 1 / 2 ^ nat (- e))"

text \<open>
  \<open>Math.exp(value)\<close>: an infinity from \<open>2^1024 - 2^970\<close> on, half a step above the
  largest double (for arguments above about 709.78).
\<close>

fun Math_exp :: "number \<Rightarrow> number" where
  "Math_exp (Num v) = (if pow2 1024 - pow2 970 \<le> exp v then PosInf else Num (exp v))"
| "Math_exp PosInf = PosInf"
| "Math_exp NegInf = Num 0"
| "Math_exp NaN = NaN"

text \<open>The unary minus.\<close>

fun negate :: "number \<Rightarrow> number" where
  "negate (Num v) = Num (- v)"
| "negate PosInf = NegInf"
| "negate NegInf = PosInf"
| "negate NaN = NaN"

text \<open>
  \<open>1 / (1 + Math.exp(-value))\<close>. The exponential is never negative, so that the
  denominator is at least 1, or infinite.
\<close>

definition sigmoid :: "number \<Rightarrow> number" where
  "sigmoid val =
     (case Math_exp (negate val) of
        Num e \<Rightarrow> Num (1 / (1 + e))
      | PosInf \<Rightarrow> Num 0
      | NegInf \<Rightarrow> Num 0
      | NaN \<Rightarrow> NaN)"

text \<open>\<open>0.5 + 0.28209479177387814 * value\<close>.\<close>

fun sh0ToRgb :: "number \<Rightarrow> number" where
  "sh0ToRgb (Num v) = Num (0.5 + 0.28209479177387814 * v)"
| "sh0ToRgb PosInf = PosInf"
| "sh0ToRgb NegInf = NegInf"
| "sh0ToRgb NaN = NaN"

text \<open>\<open>Math.max(0, Math.min(1, c))\<close>.\<close>

fun clamp01 :: "number \<Rightarrow> number" where
  "clamp01 (Num c) = Num (max 0 (min 1 c))"
| "clamp01 PosInf = Num 1"
| "clamp01 NegInf = Num 0"
| "clamp01 NaN = NaN"

text \<open>
  A store into a \<open>Float32Array\<close> converts the number to binary32, rounding to the nearest
  value, to the even one of two equally near: the values of binary32 around \<open>x\<close> lie
  \<open>float32Ulp x\<close> apart; a magnitude at or beyond \<open>2^128 - 2^103\<close>, half a step above
  the largest binary32, becomes an infinity.
\<close>

definition roundHalfEven :: "real \<Rightarrow> int" where
  "roundHalfEven q =
     (let f = \<lfloor>q\<rfloor>;
          d = q - of_int f
      in if d < 1 / 2 then f
         else if 1 / 2 < d then f + 1
         else if even f then f else f + 1)"

definition float32Ulp :: "real \<Rightarrow> real" where
  "float32Ulp x =
     (if \<bar>x\<bar> < pow2 (- 126) then pow2 (- 149) else pow2 (\<lfloor>log 2 \<bar>x\<bar>\<rfloor> - 23))"

fun toFloat32 :: "number \<Rightarrow> number" where
  "toFloat32 (Num x) =
     (if pow2 128 - pow2 103 \<le> \<bar>x\<bar> then (if x < 0 then NegInf else PosInf)
      else Num (of_int (roundHalfEven (x / float32Ulp x)) * float32Ulp x))"
| "toFloat32 PosInf = PosInf"
| "toFloat32 NegInf = NegInf"
| "toFloat32 NaN = NaN"

subsection \<open>Decoding the vertices\<close>

text \<open>
  The locals of the body of the vertex loop: \<open>x, y, z\<close>, \<open>r, g, b\<close>, \<open>opacity\<close>,
  \<open>sx, sy, sz\<close> and \<open>rw, rx, ry, rz\<close>, each with the prefix \<open>v\<close>.
\<close>

record Vertex =
  vx :: number
  vy :: number
  vz :: number
  vr :: number
  vg :: number
  vb :: number
  vopacity :: number
  vsx :: number
  vsy :: number
  vsz :: number
  vrw :: number
  vrx :: number
  vry :: number
  vrz :: number

definition defaultVertex :: Vertex where
  "defaultVertex =
     \<lparr>vx = Num 0, vy = Num 0, vz = Num 0,
      vr = Num 0.5, vg = Num 0.5, vb = Num 0.5,
      vopacity = Num 1.0,
      vsx = Num 0.1, vsy = Num 0.1, vsz = Num 0.1,
      vrw = Num 1, vrx = Num 0, vry = Num 0, vrz = Num 0\<rparr>"

text \<open>The \<open>switch (prop.name)\<close> of the float branch.\<close>

definition switchName :: "string option \<Rightarrow> number \<Rightarrow> Vertex \<Rightarrow> Vertex" where
  "switchName nm val v =
     (if nm = Some ''x'' then v\<lparr>vx := val\<rparr>
      else if nm = Some ''y'' then v\<lparr>vy := val\<rparr>
      else if nm = Some ''z'' then v\<lparr>vz := val\<rparr>
      else if nm = Some ''scale_0'' then v\<lparr>vsx := Math_exp val\<rparr>
      else if nm = Some ''scale_1'' then v\<lparr>vsy := Math_exp val\<rparr>
      else if nm = Some ''scale_2'' then v\<lparr>vsz := Math_exp val\<rparr>
      else if nm = Some ''rot_0'' then v\<lparr>vrw := val\<rparr>
      else if nm = Some ''rot_1'' then v\<lparr>vrx := val\<rparr>
      else if nm = Some ''rot_2'' then v\<lparr>vry := val\<rparr>
      else if nm = Some ''rot_3'' then v\<lparr>vrz := val\<rparr>
      else if nm = Some ''opacity'' then v\<lparr>vopacity := sigmoid val\<rparr>
      else if nm = Some ''f_dc_0'' then v\<lparr>vr := sh0ToRgb val\<rparr>
      else if nm = Some ''f_dc_1'' then v\<lparr>vg := sh0ToRgb val\<rparr>
      else if nm = Some ''f_dc_2'' then v\<lparr>vb := sh0ToRgb val\<rparr>
      else v)"

definition isFloatType :: "string option \<Rightarrow> bool" where
  "isFloatType t \<longleftrightarrow> t = Some ''float'' \<or> t = Some ''float32''"

text \<open>The loop \<open>for (const prop of properties)\<close>, threading \<open>byteOffset\<close> and the locals.\<close>

fun decodeProperties ::
  "string \<Rightarrow> Property list \<Rightarrow> nat \<Rightarrow> Vertex \<Rightarrow> error + (nat \<times> Vertex)" where
  "decodeProperties buffer [] byteOffset v = Inr (byteOffset, v)"
| "decodeProperties buffer (prop # props) byteOffset v =
     (if isFloatType (type prop) then
        (case getFloat32 buffer byteOffset of
           Inl e \<Rightarrow> Inl e
         | Inr val \<Rightarrow> decodeProperties buffer props (byteOffset + 4) (switchName (name prop) val v))
      else if type prop = Some ''uchar'' \<or> type prop = Some ''uint8'' then
        decodeProperties buffer props (byteOffset + 1) v
      else if type prop = Some ''int'' \<or> type prop = Some ''int32'' then
        decodeProperties buffer props (byteOffset + 4) v
      else if type prop = Some ''double'' then
        decodeProperties buffer props (byteOffset + 8) v
      else decodeProperties buffer props byteOffset v)"

text \<open>
  The result. \<open>vertexCount\<close> is a JavaScript number: \<open>None\<close> is NaN. The five typed
  arrays are lists; they are part of this record from their allocation on.
\<close>

record ParsedSplatData =
  vertexCount :: "int option"
  positions :: "number list"
  scales :: "number list"
  rotations :: "number list"
  opacities :: "number list"
  colors :: "number list"

text \<open>
  The stores that end the body of the vertex loop (``Populate buffers''). The arrays are
  of type \<open>Float32Array\<close>: each store converts the number to binary32.
\<close>

definition populate :: "ParsedSplatData \<Rightarrow> nat \<Rightarrow> Vertex \<Rightarrow> ParsedSplatData" where
  "populate out i v =
     out\<lparr>positions := (positions out)[i * 3 + 0 := toFloat32 (vx v),
                                      i * 3 + 1 := toFloat32 (vy v),
                                      i * 3 + 2 := toFloat32 (vz v)],
         scales := (scales out)[i * 3 + 0 := toFloat32 (vsx v),
                                i * 3 + 1 := toFloat32 (vsy v),
                                i * 3 + 2 := toFloat32 (vsz v)],
         rotations := (rotations out)[i * 4 + 0 := toFloat32 (vrw v),
                                      i * 4 + 1 := toFloat32 (vrx v),
                                      i * 4 + 2 := toFloat32 (vry v),
                                      i * 4 + 3 := toFloat32 (vrz v)],
         opacities := (opacities out)[i := toFloat32 (vopacity v)],
         colors := (colors out)[i * 3 + 0 := toFloat32 (clamp01 (vr v)),
                                i * 3 + 1 := toFloat32 (clamp01 (vg v)),
                                i * 3 + 2 := toFloat32 (clamp01 (vb v))]\<rparr>"

text \<open>The loop \<open>for (let i = 0; i < renderCount; i++)\<close>.\<close>

function decodeLoop ::
  "string \<Rightarrow> Property list \<Rightarrow> nat \<Rightarrow> nat \<Rightarrow> nat \<Rightarrow> ParsedSplatData \<Rightarrow> error + ParsedSplatData" where
  "decodeLoop buffer props renderCount i byteOffset out =
     (if i < renderCount then
        if length buffer \<le> byteOffset then Inr out
        else
          (case decodeProperties buffer props byteOffset defaultVertex of
             Inl e \<Rightarrow> Inl e
           | Inr (byteOffset', v) \<Rightarrow>
               decodeLoop buffer props renderCount (i + 1) byteOffset' (populate out i v))
      else Inr out)"
  by pat_completeness auto
termination
  by (relation "measure (\<lambda>(buffer, props, renderCount, i, byteOffset, out). renderCount - i)") auto

declare decodeLoop.simps [simp del]

definition MAX_VERTEX_COUNT :: int where
  "MAX_VERTEX_COUNT = 1000000"

text \<open>\<open>Math.min(vertexCount, MAX_VERTEX_COUNT)\<close>: NaN if the count is NaN.\<close>

definition Math_min :: "int option \<Rightarrow> int \<Rightarrow> int option" where
  "Math_min a b = (case a of None \<Rightarrow> None | Some n \<Rightarrow> Some (min n b))"

text \<open>
  \<open>new Float32Array(length)\<close> for the five arrays: a NaN length gives empty arrays, a
  negative one a RangeError, and the arrays start filled with zeros.
\<close>

definition allocate :: "int option \<Rightarrow> error + ParsedSplatData" where
  "allocate renderCount =
     (case renderCount of
        None \<Rightarrow>
          Inr \<lparr>vertexCount = None, positions = [], scales = [], rotations = [],
               opacities = [], colors = []\<rparr>
      | Some n \<Rightarrow>
          if n < 0 then Inl RangeError
          else
            Inr \<lparr>vertexCount = Some n,
                 positions = replicate (nat n * 3) (Num 0),
                 scales = replicate (nat n * 3) (Num 0),
                 rotations = replicate (nat n * 4) (Num 0),
                 opacities = replicate (nat n) (Num 0),
                 colors = replicate (nat n * 3) (Num 0)\<rparr>)"

definition parsePlyFile :: "string \<Rightarrow> error + ParsedSplatData" where
  "parsePlyFile buffer =
     (case scanLoop (headerLinesOf buffer) 0 initialScan of
        Inl e \<Rightarrow> Inl e
      | Inr st \<Rightarrow>
          if \<not> isBinary st then Inl (Error ''PLY file is not binary.'')
          else
            let renderCount = Math_min (declaredCount st) MAX_VERTEX_COUNT
            in (case allocate renderCount of
                  Inl e \<Rightarrow> Inl e
                | Inr out \<Rightarrow>
                    decodeLoop buffer (properties st)
                      (case renderCount of None \<Rightarrow> 0 | Some n \<Rightarrow> nat n) 0 (headerOffset st) out))"

section \<open>Notions of the specification\<close>

text \<open>
  The byte width the decoder gives a property, and the record stride: the sum of the
  widths of the properties of the schema.
\<close>

definition propertyWidth :: "Property \<Rightarrow> nat" where
  "propertyWidth prop =
     (if isFloatType (type prop) then 4
      else if type prop = Some ''uchar'' \<or> type prop = Some ''uint8'' then 1
      else if type prop = Some ''int'' \<or> type prop = Some ''int32'' then 4
      else if type prop = Some ''double'' then 8
      else 0)"

definition recordStride :: "Property list \<Rightarrow> nat" where
  "recordStride props = sum_list (map propertyWidth props)"

text \<open>The number of records that lie wholly inside the buffer, after the header.\<close>

definition fullyReadableRecords :: "string \<Rightarrow> Scan \<Rightarrow> nat" where
  "fullyReadableRecords buffer st =
     (length buffer - headerOffset st) div recordStride (properties st)"

text \<open>The lines of the header: those before the first line that reads \<open>end_header\<close>.\<close>

definition headerPart :: "string list \<Rightarrow> string list" where
  "headerPart headerLines = takeWhile (\<lambda>raw. trim raw \<noteq> ''end_header'') headerLines"

definition isFormatLine :: "string \<Rightarrow> bool" where
  "isFormatLine raw \<longleftrightarrow> startsWith (trim raw) ''format''"

definition isLittleEndianBinary :: "string \<Rightarrow> bool" where
  "isLittleEndianBinary raw \<longleftrightarrow> includesStr (trim raw) ''binary_little_endian 1.0''"

text \<open>The two errors of the source that reject the format.\<close>

definition UnsupportedFormat :: "error \<Rightarrow> bool" where
  "UnsupportedFormat e \<longleftrightarrow>
     e = Error ''Unsupported PLY format. Must be binary_little_endian 1.0''
     \<or> e = Error ''PLY file is not binary.''"

text \<open>What a \<open>property <type> <name>\<close> line declares.\<close>

definition propertyOf :: "string \<Rightarrow> Property" where
  "propertyOf line =
     (let parts = splitOn CHR '' '' line
      in \<lparr>name = nth_opt parts 2, type = nth_opt parts 1\<rparr>)"

text \<open>
  The schema as the specification words it: the \<open>property\<close> lines of the first
  \<open>element vertex\<close> block, which the next \<open>element\<close> line or the end of the header closes.
\<close>

fun blockProperties :: "string list \<Rightarrow> Property list" where
  "blockProperties [] = []"
| "blockProperties (raw # rest) =
     (if trim raw = ''end_header'' \<or> startsWith (trim raw) ''element'' then []
      else if startsWith (trim raw) ''property'' then propertyOf (trim raw) # blockProperties rest
      else blockProperties rest)"

fun firstVertexBlock :: "string list \<Rightarrow> Property list" where
  "firstVertexBlock [] = []"
| "firstVertexBlock (raw # rest) =
     (if trim raw = ''end_header'' then []
      else if startsWith (trim raw) ''element vertex'' then blockProperties rest
      else firstVertexBlock rest)"

text \<open>
  The schema as the scanner builds it: a line that begins \<open>element vertex\<close> opens the
  vertex context, each time; a line that begins \<open>element\<close> and has no \<open>vertex\<close> in
  it closes the context; every other line leaves it as it is; a \<open>property\<close> line counts
  when the context is open.
\<close>

definition opensVertex :: "string \<Rightarrow> bool" where
  "opensVertex line \<longleftrightarrow> startsWith line ''element vertex''"

definition closesVertex :: "string \<Rightarrow> bool" where
  "closesVertex line \<longleftrightarrow> startsWith line ''element'' \<and> \<not> includesStr line ''vertex''"

fun contextProperties :: "bool \<Rightarrow> string list \<Rightarrow> Property list" where
  "contextProperties opened [] = []"
| "contextProperties opened (raw # rest) =
     (if trim raw = ''end_header'' then []
      else
        let opened' = (opensVertex (trim raw) \<or> (opened \<and> \<not> closesVertex (trim raw)))
        in (if opened' \<and> startsWith (trim raw) ''property'' then [propertyOf (trim raw)] else [])
           @ contextProperties opened' rest)"


text \<open>
  The count a result reports and the sizes of its five arrays, and the vertex that the
  body of the vertex loop decodes from record \<open>j\<close> of a body that starts at \<open>start\<close>.
\<close>

definition shapeOf :: "ParsedSplatData \<Rightarrow> int option \<times> nat \<times> nat \<times> nat \<times> nat \<times> nat" where
  "shapeOf out =
     (vertexCount out, length (positions out), length (scales out), length (rotations out),
      length (opacities out), length (colors out))"

definition vertexAt :: "string \<Rightarrow> Property list \<Rightarrow> nat \<Rightarrow> nat \<Rightarrow> Vertex" where
  "vertexAt buffer props start j =
     (case decodeProperties buffer props (start + j * recordStride props) defaultVertex of
        Inl e \<Rightarrow> defaultVertex
      | Inr (byteOffset', v) \<Rightarrow> v)"

text \<open>
  What the five arrays hold for vertex \<open>j\<close>, what the loop stores for a decoded vertex,
  and what a freshly allocated result holds for every vertex.
\<close>

type_synonym slots = "number list \<times> number list \<times> number list \<times> number list \<times> number list"

definition slotsOf :: "ParsedSplatData \<Rightarrow> nat \<Rightarrow> slots" where
  "slotsOf out j =
     (take 3 (drop (j * 3) (positions out)),
      take 3 (drop (j * 3) (scales out)),
      take 4 (drop (j * 4) (rotations out)),
      take 1 (drop j (opacities out)),
      take 3 (drop (j * 3) (colors out)))"

definition storedVertex :: "Vertex \<Rightarrow> slots" where
  "storedVertex v =
     ([toFloat32 (vx v), toFloat32 (vy v), toFloat32 (vz v)],
      [toFloat32 (vsx v), toFloat32 (vsy v), toFloat32 (vsz v)],
      [toFloat32 (vrw v), toFloat32 (vrx v), toFloat32 (vry v), toFloat32 (vrz v)],
      [toFloat32 (vopacity v)],
      [toFloat32 (clamp01 (vr v)), toFloat32 (clamp01 (vg v)), toFloat32 (clamp01 (vb v))])"

definition zeroSlots :: slots where
  "zeroSlots =
     ([Num 0, Num 0, Num 0], [Num 0, Num 0, Num 0], [Num 0, Num 0, Num 0, Num 0], [Num 0],
      [Num 0, Num 0, Num 0])"

section \<open>Sample files\<close>




text \<open>Two vertices declared, one record of four bytes (\<open>x = 1.0\<close>) in the body.\<close>

definition truncatedFile :: string where
  "truncatedFile =
     ''ply\<newline>format binary_little_endian 1.0\<newline>element vertex 2\<newline>'' @
     ''property float x\<newline>end_header\<newline>'' @
     [CHR 0x00, CHR 0x00, CHR 0x80, CHR 0x3F]"

text \<open>One vertex declared, two bytes of its record in the body.\<close>

definition partialRecordFile :: string where
  "partialRecordFile =
     ''ply\<newline>format binary_little_endian 1.0\<newline>element vertex 1\<newline>'' @
     ''property float x\<newline>end_header\<newline>'' @
     [CHR 0x00, CHR 0x00]"


text \<open>A header that never reaches \<open>end_header\<close>.\<close>

definition noEndHeaderFile :: string where
  "noEndHeaderFile =
     ''ply\<newline>format binary_little_endian 1.0\<newline>element vertex 1\<newline>'' @
     ''property float x\<newline>''"

text \<open>An ASCII file, and a file with no \<open>format\<close> line.\<close>

definition asciiFile :: string where
  "asciiFile =
     ''ply\<newline>format ascii 1.0\<newline>element vertex 1\<newline>'' @
     ''property float x\<newline>end_header\<newline>1.0\<newline>''"

definition noFormatFile :: string where
  "noFormatFile = ''ply\<newline>element vertex 0\<newline>end_header\<newline>''"


text \<open>A header with a vertex block, a face block and a second vertex block.\<close>

definition twoBlockLines :: "string list" where
  "twoBlockLines =
     [''ply'', ''format binary_little_endian 1.0'',
      ''element vertex 1'', ''property float x'',
      ''element face 0'', ''property float q'',
      ''element vertex 2'', ''property float y'',
      ''end_header'', []]"



section \<open>Properties of the camera\<close>

subsection \<open>The pitch clamp\<close>

lemma pitch_bounds_order: "pitchMin < pitchMax"
proof -
  have "2 \<le> pi" by (rule pi_ge_two)
  then show ?thesis by (simp add: pitchMin_def pitchMax_def)
qed

lemma rotateCam_pitch_range:
  "pitchMin \<le> camRot_x (rotateCam s dx dy) \<and> camRot_x (rotateCam s dx dy) \<le> pitchMax"
  using pitch_bounds_order by (simp add: rotateCam_def Let_def)

lemma rotates_pitch_range:
  "ds \<noteq> [] \<Longrightarrow>
   pitchMin \<le> camRot_x (rotates s ds) \<and> camRot_x (rotates s ds) \<le> pitchMax"
proof (induction ds arbitrary: s)
  case Nil
  then show ?case by simp
next
  case (Cons d ds)
  obtain dx dy where d: "d = (dx, dy)" by (cases d)
  show ?case
  proof (cases ds)
    case Nil
    then show ?thesis using d rotateCam_pitch_range [of s dx dy] by simp
  next
    case (Cons e es)
    then show ?thesis using d Cons.IH [of "rotateCam s dx dy"] by simp
  qed
qed

lemma rotateCam_initial_1000: "camRot_x (rotateCam initialRenderer 0 1000) = pitchMin"
proof -
  have "pi < 4" by (rule pi_less_4)
  then show ?thesis
    by (simp add: rotateCam_def initialRenderer_def pitchMin_def pitchMax_def Let_def)
qed

lemma rotateCam_stays_at_pitchMin:
  "camRot_x s = pitchMin \<Longrightarrow> 0 \<le> dy \<Longrightarrow> camRot_x (rotateCam s dx dy) = pitchMin"
  using pitch_bounds_order by (simp add: rotateCam_def Let_def max_def min_def)

lemma rotateCam_stays_at_pitchMax:
  "camRot_x s = pitchMax \<Longrightarrow> dy \<le> 0 \<Longrightarrow> camRot_x (rotateCam s dx dy) = pitchMax"
  using pitch_bounds_order by (simp add: rotateCam_def Let_def max_def min_def)

text \<open>
  C8: from every state and after every Rotate of a sequence the pitch lies in the range
  from \<open>-\<pi>/2 + 0.01\<close> to \<open>\<pi>/2 - 0.01\<close>, hence strictly between the poles. The range
  has its end points in it: the clamp is made of \<open>Math.max\<close> and \<open>Math.min\<close>, and the
  claim itself has the pitch reach its bound. From the initial state
  Rotate(\<open>\<Delta>x = 0\<close>, \<open>\<Delta>y = +1000\<close>) clamps the pitch to its bound, the lower one (the
  branch subtracts \<open>\<Delta>y\<close>), and a further Rotate in the same direction (\<open>\<Delta>y \<ge> 0\<close>) leaves
  the pitch there; likewise at the upper end for \<open>\<Delta>y \<le> 0\<close>.
\<close>

theorem pitch_clamped:
  "(\<forall>s ds. ds \<noteq> [] \<longrightarrow>
      pitchMin \<le> camRot_x (rotates s ds) \<and> camRot_x (rotates s ds) \<le> pitchMax
      \<and> - pi / 2 < camRot_x (rotates s ds) \<and> camRot_x (rotates s ds) < pi / 2)
   \<and> camRot_x (rotateCam initialRenderer 0 1000) = pitchMin
   \<and> (\<forall>s dx dy. camRot_x s = pitchMin \<and> 0 \<le> dy \<longrightarrow> camRot_x (rotateCam s dx dy) = pitchMin)
   \<and> (\<forall>s dx dy. camRot_x s = pitchMax \<and> dy \<le> 0 \<longrightarrow> camRot_x (rotateCam s dx dy) = pitchMax)"
proof -
  have strict: "- pi / 2 < p \<and> p < pi / 2" if "pitchMin \<le> p \<and> p \<le> pitchMax" for p
    using that by (simp add: pitchMin_def pitchMax_def)
  show ?thesis
    using rotates_pitch_range strict rotateCam_initial_1000
      rotateCam_stays_at_pitchMin rotateCam_stays_at_pitchMax
    by blast
qed

theorem pitch_clamped_witness:
  "pitchMin \<le> camRot_x (rotates initialRenderer [(0, 1000), (3, 7)])
   \<and> camRot_x (rotates initialRenderer [(0, 1000), (3, 7)]) \<le> pitchMax
   \<and> camRot_x (rotateCam (rotateCam initialRenderer 0 1000) 3 7) = pitchMin"
proof -
  have a: "[(0, 1000), (3, 7)] \<noteq> ([] :: (real \<times> real) list)" by simp
  have b: "camRot_x (rotateCam initialRenderer 0 1000) = pitchMin \<and> (0::real) \<le> 7"
    using pitch_clamped by simp
  show ?thesis
    using pitch_clamped a b by blast
qed

subsection \<open>Pan\<close>

lemma sumsq_factor:
  fixes c s p q z :: real
  shows "(c * p * z)\<^sup>2 + (q * z)\<^sup>2 + (s * p * z)\<^sup>2 = z\<^sup>2 * (p\<^sup>2 * (c\<^sup>2 + s\<^sup>2) + q\<^sup>2)"
  by (simp add: power2_eq_square algebra_simps)

lemma orbit_sumsq:
  "(cos b * cos a * z)\<^sup>2 + (sin a * z)\<^sup>2 + (sin b * cos a * z)\<^sup>2 = (z::real)\<^sup>2"
  by (simp only: sumsq_factor cos_squared_eq) simp

lemma cameraState_cos: "cameraState s \<Longrightarrow> 0 < cos (camRot_x s)"
  by (simp add: cameraState_def cos_gt_zero_pi)

lemma sin_cos_not_both_zero: "sin (b::real) = 0 \<Longrightarrow> cos b \<noteq> 0"
  using sin_cos_squared_add [of b] by auto

lemma panCam_defined:
  assumes "cameraState s"
  shows "\<exists>s'. panCam s dx dy = Some s'"
proof -
  have z: "radius s \<noteq> 0" using assms by (simp add: cameraState_def)
  have c: "cos (camRot_x s) \<noteq> 0" using cameraState_cos [OF assms] by simp
  show ?thesis
    using z c by (simp add: panCam_def Let_def orbit_sumsq sin_cos_not_both_zero)
qed

lemma panCam_frame:
  assumes "panCam s dx dy = Some s'"
  shows "radius s' = radius s \<and> camRot_x s' = camRot_x s \<and> camRot_y s' = camRot_y s
     \<and> isDragging s' = isDragging s \<and> dragButton s' = dragButton s
     \<and> lastMouse_x s' = lastMouse_x s \<and> lastMouse_y s' = lastMouse_y s"
  using assms unfolding panCam_def Let_def by (auto split: if_splits)






subsection \<open>What each handler leaves alone\<close>

lemma cameraState_initial: "cameraState initialRenderer"
  by (simp add: cameraState_def initialRenderer_def)

lemma cameraState_rotateCam:
  assumes "cameraState s"
  shows "cameraState (rotateCam s dx dy)"
proof -
  have "pitchMin \<le> camRot_x (rotateCam s dx dy) \<and> camRot_x (rotateCam s dx dy) \<le> pitchMax"
    by (rule rotateCam_pitch_range)
  then have "- pi / 2 < camRot_x (rotateCam s dx dy) \<and> camRot_x (rotateCam s dx dy) < pi / 2"
    by (simp add: pitchMin_def pitchMax_def)
  moreover have "radius (rotateCam s dx dy) = radius s"
    by (simp add: rotateCam_def Let_def)
  ultimately show ?thesis using assms by (simp add: cameraState_def)
qed

lemma cameraState_panCam:
  assumes "cameraState s" and "panCam s dx dy = Some s'"
  shows "cameraState s'"
  using assms panCam_frame [OF assms(2)] by (simp add: cameraState_def)

lemma cameraState_wheel:
  assumes "cameraState s"
  shows "cameraState (wheel s deltaY)"
  using assms by (simp add: cameraState_def wheel_def Let_def max_def)

lemma cameraState_mousedown: "cameraState s \<Longrightarrow> cameraState (mousedown s button clientX clientY)"
  by (simp add: cameraState_def mousedown_def)

lemma cameraState_mouseup: "cameraState s \<Longrightarrow> cameraState (mouseup s)"
  by (simp add: cameraState_def mouseup_def)

lemma cameraState_lastMouse:
  "cameraState (s\<lparr>lastMouse_x := a, lastMouse_y := b\<rparr>) = cameraState s"
  by (simp add: cameraState_def)

lemma cameraState_mousemove:
  assumes "cameraState s"
  shows "\<exists>s'. mousemove s clientX clientY = Some s' \<and> cameraState s'"
proof (cases "isDragging s")
  case False
  then show ?thesis using assms by (simp add: mousemove_def)
next
  case True
  define s1 where "s1 = s\<lparr>lastMouse_x := clientX, lastMouse_y := clientY\<rparr>"
  have c1: "cameraState s1" using assms by (simp add: s1_def cameraState_lastMouse)
  have b1: "dragButton s1 = dragButton s" by (simp add: s1_def)
  consider "dragButton s = 0" | "dragButton s \<noteq> 0" "dragButton s = 2"
    | "dragButton s \<noteq> 0" "dragButton s \<noteq> 2"
    by blast
  then show ?thesis
  proof cases
    case 1
    then show ?thesis
      using True cameraState_rotateCam [OF c1] by (simp add: mousemove_def Let_def s1_def)
  next
    case 2
    obtain s' where s': "panCam s1 (clientX - lastMouse_x s) (clientY - lastMouse_y s) = Some s'"
      using panCam_defined [OF c1] by blast
    then show ?thesis
      using True 2 cameraState_panCam [OF c1 s'] by (simp add: mousemove_def Let_def s1_def)
  next
    case 3
    then show ?thesis
      using True c1 by (simp add: mousemove_def Let_def s1_def)
  qed
qed

text \<open>
  C10: a move with the left button held leaves target and radius as they are; a move with
  the right button held leaves pitch, yaw and radius as they are, and in a camera state it
  does produce a new state; a wheel event leaves pitch, yaw and target as they are; a move
  with no drag in progress changes nothing at all.
\<close>

theorem handlers_frame:
  "(isDragging s \<and> dragButton s = 0 \<longrightarrow>
      (\<exists>s'. mousemove s clientX clientY = Some s'
         \<and> target_x s' = target_x s \<and> target_y s' = target_y s \<and> target_z s' = target_z s
         \<and> radius s' = radius s))
   \<and> (isDragging s \<and> dragButton s = 2 \<longrightarrow>
      (\<forall>s'. mousemove s clientX clientY = Some s' \<longrightarrow>
         camRot_x s' = camRot_x s \<and> camRot_y s' = camRot_y s \<and> radius s' = radius s)
      \<and> (cameraState s \<longrightarrow> (\<exists>s'. mousemove s clientX clientY = Some s')))
   \<and> (camRot_x (wheel s deltaY) = camRot_x s \<and> camRot_y (wheel s deltaY) = camRot_y s
      \<and> target_x (wheel s deltaY) = target_x s \<and> target_y (wheel s deltaY) = target_y s
      \<and> target_z (wheel s deltaY) = target_z s)
   \<and> (\<not> isDragging s \<longrightarrow> mousemove s clientX clientY = Some s)"
proof -
  have left: "\<exists>s'. mousemove s clientX clientY = Some s'
         \<and> target_x s' = target_x s \<and> target_y s' = target_y s \<and> target_z s' = target_z s
         \<and> radius s' = radius s"
    if "isDragging s" "dragButton s = 0"
    using that by (simp add: mousemove_def Let_def rotateCam_def)
  have right: "camRot_x s' = camRot_x s \<and> camRot_y s' = camRot_y s \<and> radius s' = radius s"
    if "isDragging s" "dragButton s = 2" "mousemove s clientX clientY = Some s'" for s'
  proof -
    have "panCam (s\<lparr>lastMouse_x := clientX, lastMouse_y := clientY\<rparr>)
            (clientX - lastMouse_x s) (clientY - lastMouse_y s) = Some s'"
      using that by (simp add: mousemove_def Let_def)
    from panCam_frame [OF this] show ?thesis by simp
  qed
  have right_defined: "\<exists>s'. mousemove s clientX clientY = Some s'" if "cameraState s"
    using cameraState_mousemove [OF that] by blast
  have zoom: "camRot_x (wheel s deltaY) = camRot_x s \<and> camRot_y (wheel s deltaY) = camRot_y s
      \<and> target_x (wheel s deltaY) = target_x s \<and> target_y (wheel s deltaY) = target_y s
      \<and> target_z (wheel s deltaY) = target_z s"
    by (simp add: wheel_def Let_def)
  have idle: "mousemove s clientX clientY = Some s" if "\<not> isDragging s"
    using that by (simp add: mousemove_def)
  show ?thesis
    using left right right_defined zoom idle by blast
qed

theorem handlers_frame_witness:
  "isDragging (mousedown initialRenderer 0 10 10)
   \<and> dragButton (mousedown initialRenderer 0 10 10) = 0
   \<and> (\<exists>s'. mousemove (mousedown initialRenderer 0 10 10) 30 50 = Some s'
        \<and> target_x s' = 0 \<and> target_y s' = 0 \<and> target_z s' = 0 \<and> radius s' = 5)
   \<and> isDragging (mousedown initialRenderer 2 10 10)
   \<and> dragButton (mousedown initialRenderer 2 10 10) = 2
   \<and> cameraState (mousedown initialRenderer 2 10 10)
   \<and> (\<exists>s'. mousemove (mousedown initialRenderer 2 10 10) 30 50 = Some s'
        \<and> camRot_x s' = 0 \<and> camRot_y s' = 0 \<and> radius s' = 5)
   \<and> \<not> isDragging initialRenderer
   \<and> mousemove initialRenderer 30 50 = Some initialRenderer"
proof -
  have l: "isDragging (mousedown initialRenderer 0 10 10)
           \<and> dragButton (mousedown initialRenderer 0 10 10) = 0"
    by (simp add: mousedown_def initialRenderer_def)
  have r: "isDragging (mousedown initialRenderer 2 10 10)
           \<and> dragButton (mousedown initialRenderer 2 10 10) = 2"
    by (simp add: mousedown_def initialRenderer_def)
  have c: "cameraState (mousedown initialRenderer 2 10 10)"
    by (rule cameraState_mousedown [OF cameraState_initial])
  have i: "\<not> isDragging initialRenderer" by (simp add: initialRenderer_def)
  have v: "target_x (mousedown initialRenderer b 10 10) = 0
           \<and> target_y (mousedown initialRenderer b 10 10) = 0
           \<and> target_z (mousedown initialRenderer b 10 10) = 0
           \<and> radius (mousedown initialRenderer b 10 10) = 5
           \<and> camRot_x (mousedown initialRenderer b 10 10) = 0
           \<and> camRot_y (mousedown initialRenderer b 10 10) = 0" for b
    by (simp add: mousedown_def initialRenderer_def)
  have f0: "\<exists>s'. mousemove (mousedown initialRenderer 0 10 10) 30 50 = Some s'
        \<and> target_x s' = 0 \<and> target_y s' = 0 \<and> target_z s' = 0 \<and> radius s' = 5"
    using handlers_frame [of "mousedown initialRenderer 0 10 10" 30 50 0] l v [of 0] by simp
  have f2: "\<exists>s'. mousemove (mousedown initialRenderer 2 10 10) 30 50 = Some s'
        \<and> camRot_x s' = 0 \<and> camRot_y s' = 0 \<and> radius s' = 5"
    using handlers_frame [of "mousedown initialRenderer 2 10 10" 30 50 0] r c v [of 2]
    by (metis (no_types, lifting))
  have f3: "mousemove initialRenderer 30 50 = Some initialRenderer"
    using handlers_frame [of initialRenderer 30 50 0] i by simp
  show ?thesis using l r c i f0 f2 f3 by simp
qed

section \<open>Properties of the header scan\<close>

subsection \<open>Splitting and joining\<close>






subsection \<open>One pass through the body of the header loop\<close>

lemma scanLine_Break:
  assumes "scanLine ls i st = Break st'"
  shows "trim (ls ! i) = ''end_header'' \<and> endHeaderIndex st' = int i
     \<and> headerOffset st' = length (join [CHR 0x0A] (take (i + 1) ls)) + 1
     \<and> isBinary st' = isBinary st \<and> declaredCount st' = declaredCount st
     \<and> properties st' = properties st \<and> inVertexElement st' = inVertexElement st"
  using assms unfolding scanLine_def Let_def by (auto split: if_splits)

lemma scanLine_Throw:
  assumes "scanLine ls i st = Throw e"
  shows "e = Error ''Unsupported PLY format. Must be binary_little_endian 1.0''
     \<and> trim (ls ! i) \<noteq> ''end_header'' \<and> isFormatLine (ls ! i) \<and> \<not> isLittleEndianBinary (ls ! i)"
  using assms unfolding scanLine_def Let_def isFormatLine_def isLittleEndianBinary_def
  by (auto split: if_splits)

lemma scanLine_Continue:
  assumes "scanLine ls i st = Continue st'"
  shows "trim (ls ! i) \<noteq> ''end_header''
     \<and> (isFormatLine (ls ! i) \<longrightarrow> isLittleEndianBinary (ls ! i))
     \<and> endHeaderIndex st' = endHeaderIndex st
     \<and> isBinary st' = (isBinary st \<or> isFormatLine (ls ! i))
     \<and> inVertexElement st' =
         (opensVertex (trim (ls ! i)) \<or> (inVertexElement st \<and> \<not> closesVertex (trim (ls ! i))))
     \<and> properties st' =
         properties st @
         (if inVertexElement st' \<and> startsWith (trim (ls ! i)) ''property''
          then [propertyOf (trim (ls ! i))] else [])"
  using assms
  unfolding scanLine_def Let_def isFormatLine_def isLittleEndianBinary_def opensVertex_def
    closesVertex_def propertyOf_def
  by (auto split: if_splits)

lemma scanLine_end_header:
  "trim (ls ! i) = ''end_header'' \<Longrightarrow> \<exists>st'. scanLine ls i st = Break st'"
  by (simp add: scanLine_def Let_def)

lemma scanLine_bad_format:
  "trim (ls ! i) \<noteq> ''end_header'' \<Longrightarrow> isFormatLine (ls ! i) \<Longrightarrow> \<not> isLittleEndianBinary (ls ! i) \<Longrightarrow>
   scanLine ls i st = Throw (Error ''Unsupported PLY format. Must be binary_little_endian 1.0'')"
  by (simp add: scanLine_def Let_def isFormatLine_def isLittleEndianBinary_def)

lemma scanLine_no_format:
  "trim (ls ! i) \<noteq> ''end_header'' \<Longrightarrow> \<not> isFormatLine (ls ! i) \<Longrightarrow>
   \<exists>st'. scanLine ls i st = Continue st'"
  by (simp add: scanLine_def Let_def isFormatLine_def)

subsection \<open>The header loop\<close>

lemma headerPart_drop:
  assumes "i < length ls"
  shows "headerPart (drop i ls) =
         (if trim (ls ! i) = ''end_header'' then [] else ls ! i # headerPart (drop (Suc i) ls))"
proof -
  have "drop i ls = ls ! i # drop (Suc i) ls"
    using assms by (simp add: Cons_nth_drop_Suc)
  then show ?thesis by (simp add: headerPart_def)
qed


lemma scanLoop_bad_format:
  "\<exists>raw \<in> set (headerPart (drop i ls)). isFormatLine raw \<and> \<not> isLittleEndianBinary raw \<Longrightarrow>
   scanLoop ls i st = Inl (Error ''Unsupported PLY format. Must be binary_little_endian 1.0'')"
proof (induction ls i st rule: scanLoop.induct)
  case (1 ls i st)
  have len: "i < length ls"
  proof (rule ccontr)
    assume "\<not> i < length ls"
    then have "drop i ls = []" by simp
    then show False using "1.prems" by (simp add: headerPart_def)
  qed
  have hp: "headerPart (drop i ls) =
      (if trim (ls ! i) = ''end_header'' then [] else ls ! i # headerPart (drop (Suc i) ls))"
    by (rule headerPart_drop [OF len])
  have here: "trim (ls ! i) \<noteq> ''end_header''"
    using "1.prems" hp by (auto split: if_splits)
  show ?case
  proof (cases "isFormatLine (ls ! i) \<and> \<not> isLittleEndianBinary (ls ! i)")
    case True
    then show ?thesis
      using len scanLine_bad_format [OF here, of st] by (simp add: scanLoop.simps)
  next
    case False
    then have later: "\<exists>raw \<in> set (headerPart (drop (i + 1) ls)).
        isFormatLine raw \<and> \<not> isLittleEndianBinary raw"
      using "1.prems" hp here by auto
    show ?thesis
    proof (cases "scanLine ls i st")
      case (Continue st2)
      then show ?thesis
        using len "1.IH" [OF len Continue later] by (simp add: scanLoop.simps)
    next
      case (Break st2)
      then show ?thesis using scanLine_Break [OF Break] here by simp
    next
      case (Throw e)
      then show ?thesis using len scanLine_Throw [OF Throw] by (simp add: scanLoop.simps)
    qed
  qed
qed

lemma scanLoop_no_format:
  "\<forall>raw \<in> set (headerPart (drop i ls)). \<not> isFormatLine raw \<Longrightarrow>
   \<exists>st'. scanLoop ls i st = Inr st' \<and> isBinary st' = isBinary st"
proof (induction ls i st rule: scanLoop.induct)
  case (1 ls i st)
  show ?case
  proof (cases "i < length ls")
    case False
    then show ?thesis by (simp add: scanLoop.simps)
  next
    case True
    have hp: "headerPart (drop i ls) =
      (if trim (ls ! i) = ''end_header'' then [] else ls ! i # headerPart (drop (Suc i) ls))"
      by (rule headerPart_drop [OF True])
    show ?thesis
    proof (cases "trim (ls ! i) = ''end_header''")
      case eh: True
      obtain st2 where b: "scanLine ls i st = Break st2"
        using scanLine_end_header [OF eh] by blast
      then show ?thesis
        using True scanLine_Break [OF b] by (simp add: scanLoop.simps)
    next
      case neh: False
      have nf: "\<not> isFormatLine (ls ! i)" using "1.prems" hp neh by simp
      have later: "\<forall>raw \<in> set (headerPart (drop (i + 1) ls)). \<not> isFormatLine raw"
        using "1.prems" hp neh by simp
      obtain st2 where c: "scanLine ls i st = Continue st2"
        using scanLine_no_format [OF neh nf] by blast
      have "isBinary st2 = isBinary st" using scanLine_Continue [OF c] nf by simp
      then show ?thesis
        using True c "1.IH" [OF True c later] by (simp add: scanLoop.simps)
    qed
  qed
qed

lemma scanLoop_properties:
  "scanLoop ls i st = Inr st' \<Longrightarrow>
   properties st' = properties st @ contextProperties (inVertexElement st) (drop i ls)"
proof (induction ls i st rule: scanLoop.induct)
  case (1 ls i st)
  show ?case
  proof (cases "i < length ls")
    case False
    then show ?thesis using "1.prems" by (simp add: scanLoop.simps)
  next
    case True
    have dr: "drop i ls = ls ! i # drop (Suc i) ls"
      using True by (simp add: Cons_nth_drop_Suc)
    show ?thesis
    proof (cases "scanLine ls i st")
      case (Continue st2)
      have run: "scanLoop ls (i + 1) st2 = Inr st'"
        using "1.prems" True Continue by (simp add: scanLoop.simps)
      have ih: "properties st' =
          properties st2 @ contextProperties (inVertexElement st2) (drop (i + 1) ls)"
        by (rule "1.IH" [OF True Continue run])
      show ?thesis
        using ih scanLine_Continue [OF Continue] dr by (simp add: Let_def)
    next
      case (Break st2)
      have "st' = st2" using "1.prems" True Break by (simp add: scanLoop.simps)
      then show ?thesis using scanLine_Break [OF Break] dr by simp
    next
      case (Throw e)
      then show ?thesis using "1.prems" True by (simp add: scanLoop.simps)
    qed
  qed
qed

subsection \<open>The sample headers, scanned\<close>

lemmas scan_eval =
  scanLoop.simps scanLine_def trim_def isWhiteSpace_def startsWith_def initialScan_def Let_def
  parseInt_def nth_opt_def isDigit_def digitsValue_def headerLinesOf_def


lemma truncatedFile_scan:
  "scanLoop (headerLinesOf truncatedFile) 0 initialScan =
   Inr \<lparr>headerOffset = 81, endHeaderIndex = 4, declaredCount = Some 2, isBinary = True,
        properties = [\<lparr>name = Some ''x'', type = Some ''float''\<rparr>],
        inVertexElement = True\<rparr>"
  by (simp add: truncatedFile_def scan_eval)

lemma partialRecordFile_scan:
  "scanLoop (headerLinesOf partialRecordFile) 0 initialScan =
   Inr \<lparr>headerOffset = 81, endHeaderIndex = 4, declaredCount = Some 1, isBinary = True,
        properties = [\<lparr>name = Some ''x'', type = Some ''float''\<rparr>],
        inVertexElement = True\<rparr>"
  by (simp add: partialRecordFile_def scan_eval)

lemma noEndHeaderFile_scan:
  "scanLoop (headerLinesOf noEndHeaderFile) 0 initialScan =
   Inr \<lparr>headerOffset = 71, endHeaderIndex = - 1, declaredCount = Some 1, isBinary = True,
        properties = [\<lparr>name = Some ''x'', type = Some ''float''\<rparr>],
        inVertexElement = True\<rparr>"
  by (simp add: noEndHeaderFile_def scan_eval)



lemma twoBlockLines_scan:
  "scanLoop twoBlockLines 0 initialScan =
   Inr \<lparr>headerOffset = 147, endHeaderIndex = 8, declaredCount = Some 2, isBinary = True,
        properties =
          [\<lparr>name = Some ''x'', type = Some ''float''\<rparr>,
           \<lparr>name = Some ''y'', type = Some ''float''\<rparr>],
        inVertexElement = True\<rparr>"
  by (simp add: twoBlockLines_def scan_eval)

subsection \<open>The offset of the first record\<close>










subsection \<open>Formats that are rejected\<close>

text \<open>
  C5: if a line of the header begins \<open>format\<close> and does not contain
  \<open>binary_little_endian 1.0\<close> (as \<open>format ascii 1.0\<close>), or if no line of the header
  begins \<open>format\<close>, then \<open>parsePlyFile\<close> throws one of the two errors that reject the format,
  and so returns no data.
\<close>

theorem unsupported_format:
  "((\<exists>raw \<in> set (headerPart (headerLinesOf buffer)).
        isFormatLine raw \<and> \<not> isLittleEndianBinary raw) \<longrightarrow>
      parsePlyFile buffer
        = Inl (Error ''Unsupported PLY format. Must be binary_little_endian 1.0''))
   \<and> ((\<forall>raw \<in> set (headerPart (headerLinesOf buffer)). \<not> isFormatLine raw) \<longrightarrow>
      parsePlyFile buffer = Inl (Error ''PLY file is not binary.''))
   \<and> (((\<exists>raw \<in> set (headerPart (headerLinesOf buffer)).
          isFormatLine raw \<and> \<not> isLittleEndianBinary raw)
        \<or> (\<forall>raw \<in> set (headerPart (headerLinesOf buffer)). \<not> isFormatLine raw)) \<longrightarrow>
      (\<exists>e. parsePlyFile buffer = Inl e \<and> UnsupportedFormat e))"
proof -
  let ?ls = "headerLinesOf buffer"
  have bad: "parsePlyFile buffer
        = Inl (Error ''Unsupported PLY format. Must be binary_little_endian 1.0'')"
    if "\<exists>raw \<in> set (headerPart ?ls). isFormatLine raw \<and> \<not> isLittleEndianBinary raw"
  proof -
    have "\<exists>raw \<in> set (headerPart (drop 0 ?ls)). isFormatLine raw \<and> \<not> isLittleEndianBinary raw"
      using that by simp
    from scanLoop_bad_format [OF this, of initialScan]
    show ?thesis by (simp add: parsePlyFile_def)
  qed
  have none: "parsePlyFile buffer = Inl (Error ''PLY file is not binary.'')"
    if "\<forall>raw \<in> set (headerPart ?ls). \<not> isFormatLine raw"
  proof -
    have "\<forall>raw \<in> set (headerPart (drop 0 ?ls)). \<not> isFormatLine raw"
      using that by simp
    from scanLoop_no_format [OF this, of initialScan]
    obtain st where "scanLoop ?ls 0 initialScan = Inr st" "isBinary st = isBinary initialScan"
      by blast
    then show ?thesis by (simp add: parsePlyFile_def initialScan_def)
  qed
  show ?thesis using bad none by (auto simp add: UnsupportedFormat_def)
qed

lemma asciiFile_header:
  "headerPart (headerLinesOf asciiFile) =
   [''ply'', ''format ascii 1.0'', ''element vertex 1'', ''property float x'']"
  by (simp add: asciiFile_def headerLinesOf_def headerPart_def trim_def isWhiteSpace_def)

lemma noFormatFile_header:
  "headerPart (headerLinesOf noFormatFile) = [''ply'', ''element vertex 0'']"
  by (simp add: noFormatFile_def headerLinesOf_def headerPart_def trim_def isWhiteSpace_def)

theorem unsupported_format_witness:
  "''format ascii 1.0'' \<in> set (headerPart (headerLinesOf asciiFile))
   \<and> isFormatLine ''format ascii 1.0'' \<and> \<not> isLittleEndianBinary ''format ascii 1.0''
   \<and> parsePlyFile asciiFile
       = Inl (Error ''Unsupported PLY format. Must be binary_little_endian 1.0'')
   \<and> headerPart (headerLinesOf noFormatFile) = [''ply'', ''element vertex 0'']
   \<and> \<not> isFormatLine ''ply'' \<and> \<not> isFormatLine ''element vertex 0''
   \<and> parsePlyFile noFormatFile = Inl (Error ''PLY file is not binary.'')"
proof -
  have f: "isFormatLine ''format ascii 1.0'' \<and> \<not> isLittleEndianBinary ''format ascii 1.0''"
    by (simp add: isFormatLine_def isLittleEndianBinary_def trim_def isWhiteSpace_def
        startsWith_def)
  have m: "''format ascii 1.0'' \<in> set (headerPart (headerLinesOf asciiFile))"
    by (simp add: asciiFile_header)
  have a: "\<exists>raw \<in> set (headerPart (headerLinesOf asciiFile)).
       isFormatLine raw \<and> \<not> isLittleEndianBinary raw"
    using f m by blast
  have g: "\<not> isFormatLine ''ply'' \<and> \<not> isFormatLine ''element vertex 0''"
    by (simp add: isFormatLine_def trim_def isWhiteSpace_def startsWith_def)
  have n: "\<forall>raw \<in> set (headerPart (headerLinesOf noFormatFile)). \<not> isFormatLine raw"
    using g by (simp add: noFormatFile_header)
  have "parsePlyFile asciiFile
       = Inl (Error ''Unsupported PLY format. Must be binary_little_endian 1.0'')"
    using a unsupported_format [of asciiFile] by blast
  moreover have "parsePlyFile noFormatFile = Inl (Error ''PLY file is not binary.'')"
    using n unsupported_format [of noFormatFile] by blast
  ultimately show ?thesis using f m g noFormatFile_header by simp
qed

subsection \<open>The schema\<close>

text \<open>
  C7, as stated: the schema holds exactly the \<open>property\<close> lines of the first
  \<open>element vertex\<close> block. It does not: with a vertex block declaring \<open>x\<close>, a face block
  and a second vertex block declaring \<open>y\<close>, the scanner's schema is \<open>x, y\<close>, while the
  first vertex block holds \<open>x\<close> alone.
\<close>

theorem schema_first_block_counterexample:
  "scanLoop twoBlockLines 0 initialScan =
     Inr \<lparr>headerOffset = 147, endHeaderIndex = 8, declaredCount = Some 2, isBinary = True,
          properties =
            [\<lparr>name = Some ''x'', type = Some ''float''\<rparr>,
             \<lparr>name = Some ''y'', type = Some ''float''\<rparr>],
          inVertexElement = True\<rparr>
   \<and> firstVertexBlock twoBlockLines = [\<lparr>name = Some ''x'', type = Some ''float''\<rparr>]
   \<and> [\<lparr>name = Some ''x'', type = Some ''float''\<rparr>, \<lparr>name = Some ''y'', type = Some ''float''\<rparr>]
       \<noteq> firstVertexBlock twoBlockLines"
proof -
  have "firstVertexBlock twoBlockLines = [\<lparr>name = Some ''x'', type = Some ''float''\<rparr>]"
    by (simp add: twoBlockLines_def trim_def isWhiteSpace_def startsWith_def propertyOf_def
        nth_opt_def Let_def)
  then show ?thesis using twoBlockLines_scan by simp
qed

text \<open>
  C7, amended: the schema holds exactly the \<open>property\<close> lines, in order and up to
  \<open>end_header\<close>, that are met while the vertex context is open; every line that begins
  \<open>element vertex\<close> opens the context (not the first such line only), a line that begins
  \<open>element\<close> and does not contain \<open>vertex\<close> closes it, and \<open>property\<close> lines met while
  it is closed add nothing.
\<close>

theorem schema_of_vertex_context:
  assumes "scanLoop headerLines 0 initialScan = Inr st"
  shows "properties st = contextProperties False headerLines"
  using scanLoop_properties [OF assms] by (simp add: initialScan_def)

theorem schema_of_vertex_context_witness:
  "contextProperties False twoBlockLines =
     [\<lparr>name = Some ''x'', type = Some ''float''\<rparr>, \<lparr>name = Some ''y'', type = Some ''float''\<rparr>]"
  using schema_of_vertex_context [OF twoBlockLines_scan] by simp

section \<open>Properties of the numbers\<close>

subsection \<open>Rounding to binary32\<close>

lemma pow2_powr: "pow2 e = 2 powr (of_int e)"
  by (simp add: pow2_def powr_int)

lemma pow2_pos: "0 < pow2 e"
  by (simp add: pow2_powr)


lemma pow2_mono: "a \<le> b \<Longrightarrow> pow2 a \<le> pow2 b"
  by (simp add: pow2_powr)


lemma pow2_nat: "pow2 (int n) = 2 ^ n"
  by (simp add: pow2_def)

lemma roundHalfEven_of_int: "roundHalfEven (of_int n) = n"
  by (simp add: roundHalfEven_def)

text \<open>In the binade from \<open>2^e\<close> to \<open>2^(e+1)\<close>, for \<open>e\<close> from -126 on, the step is \<open>2^(e-23)\<close>.\<close>

lemma float32Ulp_binade:
  assumes "pow2 e \<le> \<bar>x\<bar>" and "\<bar>x\<bar> < pow2 (e + 1)" and "- 126 \<le> e"
  shows "float32Ulp x = pow2 (e - 23)"
proof -
  have pos: "0 < \<bar>x\<bar>" using assms(1) pow2_pos [of e] by linarith
  have "pow2 (- 126) \<le> pow2 e" using assms(3) by (rule pow2_mono)
  then have normal: "\<not> \<bar>x\<bar> < pow2 (- 126)" using assms(1) by linarith
  have "\<lfloor>log 2 \<bar>x\<bar>\<rfloor> = e"
    using assms(1,2) floor_log_eq_powr_iff [of "\<bar>x\<bar>" 2 e] pos
    by (simp add: pow2_powr)
  then show ?thesis using normal by (simp add: float32Ulp_def)
qed

lemma float32Ulp_subnormal: "\<bar>x\<bar> < pow2 (- 126) \<Longrightarrow> float32Ulp x = pow2 (- 149)"
  by (simp add: float32Ulp_def)

text \<open>A multiple of the step around it, below the overflow bound, is stored as it is.\<close>

lemma toFloat32_multiple:
  assumes "float32Ulp x = u" and "x = of_int n * u" and "0 < u"
    and "\<bar>x\<bar> < pow2 128 - pow2 103"
  shows "toFloat32 (Num x) = Num x"
proof -
  have "x / u = of_int n" using assms(2,3) by simp
  then have "of_int (roundHalfEven (x / float32Ulp x)) * float32Ulp x = x"
    using assms(1,2) by (simp add: roundHalfEven_of_int)
  then show ?thesis using assms(4) by simp
qed





lemma toFloat32_tenth: "toFloat32 (Num (1 / 10)) = Num (13421773 / 134217728)"
proof -
  have u: "float32Ulp (1 / 10) = pow2 (- 27)"
    using float32Ulp_binade [of "- 4" "1 / 10"] by (simp add: pow2_def)
  have small: "\<not> pow2 128 - pow2 103 \<le> \<bar>1 / 10 :: real\<bar>" by (simp add: pow2_def)
  have q: "(1 / 10) / pow2 (- 27) = (67108864 / 5 :: real)" by (simp add: pow2_def)
  have fl: "\<lfloor>67108864 / 5 :: real\<rfloor> = 13421772" by simp
  have r: "roundHalfEven (67108864 / 5) = 13421773"
    unfolding roundHalfEven_def Let_def fl by simp
  have "toFloat32 (Num (1 / 10))
      = Num (of_int (roundHalfEven ((1 / 10) / pow2 (- 27))) * pow2 (- 27))"
    using small by (simp only: toFloat32.simps u if_False)
  also have "\<dots> = Num (of_int 13421773 * pow2 (- 27))" by (simp only: q r)
  also have "\<dots> = Num (13421773 / 134217728)" by (simp add: pow2_def)
  finally show ?thesis .
qed

lemma toFloat32_0: "toFloat32 (Num 0) = Num 0"
  using toFloat32_multiple [of 0 "pow2 (- 149)" 0]
  by (simp add: float32Ulp_subnormal pow2_pos) (simp add: pow2_def)

lemma toFloat32_1: "toFloat32 (Num 1) = Num 1"
proof -
  have u: "float32Ulp 1 = pow2 (- 23)"
    using float32Ulp_binade [of 0 1] by (simp add: pow2_def)
  show ?thesis
    by (rule toFloat32_multiple [of 1 "pow2 (- 23)" 8388608]) (simp_all add: u, simp_all add: pow2_def)
qed

lemma toFloat32_half: "toFloat32 (Num (1 / 2)) = Num (1 / 2)"
proof -
  have u: "float32Ulp (1 / 2) = pow2 (- 24)"
    using float32Ulp_binade [of "- 1" "1 / 2"] by (simp add: pow2_def)
  show ?thesis
    by (rule toFloat32_multiple [of "1 / 2" "pow2 (- 24)" 8388608]) (simp_all add: u, simp_all add: pow2_def)
qed



subsection \<open>The transforms at some values\<close>















section \<open>Properties of the vertex loop\<close>

subsection \<open>Reading one record\<close>

lemma getFloat32_inside:
  "byteOffset + 4 \<le> length buffer \<Longrightarrow> \<exists>val. getFloat32 buffer byteOffset = Inr val"
  by (simp add: getFloat32_def)

lemma getFloat32_outside:
  "length buffer < byteOffset + 4 \<Longrightarrow> getFloat32 buffer byteOffset = Inl RangeError"
  by (simp add: getFloat32_def)

lemma recordStride_Cons: "recordStride (p # ps) = propertyWidth p + recordStride ps"
  by (simp add: recordStride_def)

lemma recordStride_append: "recordStride (ps @ qs) = recordStride ps + recordStride qs"
  by (simp add: recordStride_def)

lemma decodeProperties_inside:
  "byteOffset + recordStride props \<le> length buffer \<Longrightarrow>
   \<exists>v'. decodeProperties buffer props byteOffset v = Inr (byteOffset + recordStride props, v')"
proof (induction props arbitrary: byteOffset v)
  case Nil
  then show ?case by (simp add: recordStride_def)
next
  case (Cons p ps)
  have room: "(byteOffset + propertyWidth p) + recordStride ps \<le> length buffer"
    using Cons.prems by (simp add: recordStride_Cons)
  show ?case
  proof (cases "isFloatType (type p)")
    case True
    then have w: "propertyWidth p = 4" by (simp add: propertyWidth_def)
    obtain val where val: "getFloat32 buffer byteOffset = Inr val"
      using getFloat32_inside [of byteOffset buffer] room w by auto
    show ?thesis
      using True val w Cons.IH [of "byteOffset + 4" "switchName (name p) val v"] room
      by (simp add: recordStride_Cons add.assoc)
  next
    case False
    then show ?thesis
      using Cons.IH [of "byteOffset + propertyWidth p" v] room
      by (auto simp add: recordStride_Cons propertyWidth_def add.assoc)
  qed
qed

lemma decodeProperties_offset:
  "decodeProperties buffer props byteOffset v = Inr (byteOffset', v') \<Longrightarrow>
   byteOffset' = byteOffset + recordStride props"
proof (induction props arbitrary: byteOffset v)
  case Nil
  then show ?case by (simp add: recordStride_def)
next
  case (Cons p ps)
  show ?case
  proof (cases "isFloatType (type p)")
    case True
    then have w: "propertyWidth p = 4" by (simp add: propertyWidth_def)
    obtain val where val: "getFloat32 buffer byteOffset = Inr val"
      using Cons.prems True by (cases "getFloat32 buffer byteOffset") auto
    have "decodeProperties buffer ps (byteOffset + 4) (switchName (name p) val v)
          = Inr (byteOffset', v')"
      using Cons.prems True val by simp
    from Cons.IH [OF this] show ?thesis using w by (simp add: recordStride_Cons)
  next
    case False
    have "decodeProperties buffer ps (byteOffset + propertyWidth p) v = Inr (byteOffset', v')"
      using Cons.prems False by (auto simp add: propertyWidth_def split: if_splits)
    from Cons.IH [OF this] show ?thesis by (simp add: recordStride_Cons)
  qed
qed

subsection \<open>The loop keeps the count and the sizes of the arrays\<close>

lemma shapeOf_populate: "shapeOf (populate out i v) = shapeOf out"
  by (simp add: shapeOf_def populate_def)

lemma decodeLoop_exhausted:
  "length buffer \<le> byteOffset \<Longrightarrow> decodeLoop buffer props renderCount i byteOffset out = Inr out"
  by (simp add: decodeLoop.simps)

lemma decodeLoop_shape:
  "decodeLoop buffer props renderCount i byteOffset out = Inr out' \<Longrightarrow> shapeOf out' = shapeOf out"
proof (induction buffer props renderCount i byteOffset out rule: decodeLoop.induct)
  case (1 buffer props renderCount i byteOffset out)
  show ?case
  proof (cases "i < renderCount \<and> \<not> length buffer \<le> byteOffset")
    case False
    then have "out' = out" using "1.prems" by (auto simp add: decodeLoop.simps split: if_splits)
    then show ?thesis by simp
  next
    case True
    then have lt: "i < renderCount" and inside: "\<not> length buffer \<le> byteOffset" by simp_all
    show ?thesis
    proof (cases "decodeProperties buffer props byteOffset defaultVertex")
      case (Inl e)
      then show ?thesis using "1.prems" lt inside by (simp add: decodeLoop.simps)
    next
      case (Inr res)
      obtain byteOffset' v where res: "res = (byteOffset', v)" by (cases res)
      have dec: "decodeProperties buffer props byteOffset defaultVertex = Inr (byteOffset', v)"
        using Inr res by simp
      have run: "decodeLoop buffer props renderCount (i + 1) byteOffset' (populate out i v)
                 = Inr out'"
        using "1.prems" lt inside dec by (simp add: decodeLoop.simps)
      have "shapeOf out' = shapeOf (populate out i v)"
        by (rule "1.IH" [OF lt inside dec refl run])
      then show ?thesis by (simp add: shapeOf_populate)
    qed
  qed
qed


text \<open>With a body that ends on a record boundary, the loop throws nothing either.\<close>

lemma decodeLoop_aligned:
  "length buffer = byteOffset + j * recordStride props \<Longrightarrow>
   \<exists>out'. decodeLoop buffer props renderCount i byteOffset out = Inr out'"
proof (induction buffer props renderCount i byteOffset out arbitrary: j rule: decodeLoop.induct)
  case (1 buffer props renderCount i byteOffset out)
  show ?case
  proof (cases "i < renderCount \<and> \<not> length buffer \<le> byteOffset")
    case False
    then show ?thesis by (auto simp add: decodeLoop.simps)
  next
    case True
    then have lt: "i < renderCount" and inside: "\<not> length buffer \<le> byteOffset" by simp_all
    have "j \<noteq> 0" using "1.prems" inside by (cases j) auto
    then obtain j' where j': "j = Suc j'" by (cases j) auto
    have one: "byteOffset + recordStride props \<le> length buffer"
      using "1.prems" j' by simp
    obtain v where dec: "decodeProperties buffer props byteOffset defaultVertex
        = Inr (byteOffset + recordStride props, v)"
      using decodeProperties_inside [OF one] by blast
    have rest: "length buffer = (byteOffset + recordStride props) + j' * recordStride props"
      using "1.prems" j' by simp
    have "\<exists>out'. decodeLoop buffer props renderCount (i + 1) (byteOffset + recordStride props)
        (populate out i v) = Inr out'"
      by (rule "1.IH" [OF lt inside dec refl rest])
    then show ?thesis using lt inside dec by (simp add: decodeLoop.simps)
  qed
qed

lemma shapeOf_allocate:
  "0 \<le> n \<Longrightarrow>
   \<exists>out. allocate (Some n) = Inr out
     \<and> shapeOf out = (Some n, nat n * 3, nat n * 3, nat n * 4, nat n, nat n * 3)"
  by (simp add: allocate_def shapeOf_def)

subsection \<open>What the loop stores\<close>

lemma window_update_outside:
  "p < k \<or> k + w \<le> p \<Longrightarrow> take w (drop k (xs[p := a])) = take w (drop k xs)"
proof (cases "p < k")
  case True
  then show ?thesis by (simp add: drop_update_cancel)
next
  case False
  assume "p < k \<or> k + w \<le> p"
  with False have far: "k + w \<le> p" by simp
  then have "drop k (xs[p := a]) = (drop k xs)[p - k := a]"
    by (simp add: drop_update_swap)
  moreover have "w \<le> p - k" using far by simp
  ultimately show ?thesis by (simp add: take_update_cancel)
qed

lemma window3_update:
  "k + 3 \<le> length xs \<Longrightarrow> take 3 (drop k (xs[k + 0 := a, k + 1 := b, k + 2 := c])) = [a, b, c]"
proof -
  assume len: "k + 3 \<le> length xs"
  let ?ys = "xs[k + 0 := a, k + 1 := b, k + 2 := c]"
  have n: "length (take 3 (drop k ?ys)) = 3" using len by simp
  have "take 3 (drop k ?ys) ! m = [a, b, c] ! m" if "m < 3" for m
  proof -
    have "m = 0 \<or> m = 1 \<or> m = 2" using that by linarith
    then show ?thesis using len by (auto simp add: nth_list_update)
  qed
  then show ?thesis using n by (simp add: list_eq_iff_nth_eq)
qed

lemma window4_update:
  "k + 4 \<le> length xs \<Longrightarrow>
   take 4 (drop k (xs[k + 0 := a, k + 1 := b, k + 2 := c, k + 3 := d])) = [a, b, c, d]"
proof -
  assume len: "k + 4 \<le> length xs"
  let ?ys = "xs[k + 0 := a, k + 1 := b, k + 2 := c, k + 3 := d]"
  have n: "length (take 4 (drop k ?ys)) = 4" using len by simp
  have "take 4 (drop k ?ys) ! m = [a, b, c, d] ! m" if "m < 4" for m
  proof -
    have "m = 0 \<or> m = 1 \<or> m = 2 \<or> m = 3" using that by linarith
    then show ?thesis using len by (auto simp add: nth_list_update)
  qed
  then show ?thesis using n by (simp add: list_eq_iff_nth_eq)
qed

lemma window1_update: "k + 1 \<le> length xs \<Longrightarrow> take 1 (drop k (xs[k := a])) = [a]"
proof -
  assume len: "k + 1 \<le> length xs"
  have n: "length (take 1 (drop k (xs[k := a]))) = 1" using len by simp
  have "take 1 (drop k (xs[k := a])) ! 0 = a" using len by simp
  then show ?thesis using n by (simp add: list_eq_iff_nth_eq)
qed

lemma slotsOf_populate_same:
  assumes "i * 3 + 3 \<le> length (positions out)" and "i * 3 + 3 \<le> length (scales out)"
    and "i * 4 + 4 \<le> length (rotations out)" and "i + 1 \<le> length (opacities out)"
    and "i * 3 + 3 \<le> length (colors out)"
  shows "slotsOf (populate out i v) i = storedVertex v"
proof -
  have p: "positions (populate out i v)
      = (positions out)[i * 3 + 0 := toFloat32 (vx v), i * 3 + 1 := toFloat32 (vy v),
                        i * 3 + 2 := toFloat32 (vz v)]"
    by (simp add: populate_def)
  have s: "scales (populate out i v)
      = (scales out)[i * 3 + 0 := toFloat32 (vsx v), i * 3 + 1 := toFloat32 (vsy v),
                     i * 3 + 2 := toFloat32 (vsz v)]"
    by (simp add: populate_def)
  have r: "rotations (populate out i v)
      = (rotations out)[i * 4 + 0 := toFloat32 (vrw v), i * 4 + 1 := toFloat32 (vrx v),
                        i * 4 + 2 := toFloat32 (vry v), i * 4 + 3 := toFloat32 (vrz v)]"
    by (simp add: populate_def)
  have o: "opacities (populate out i v) = (opacities out)[i := toFloat32 (vopacity v)]"
    by (simp add: populate_def)
  have c: "colors (populate out i v)
      = (colors out)[i * 3 + 0 := toFloat32 (clamp01 (vr v)),
                     i * 3 + 1 := toFloat32 (clamp01 (vg v)),
                     i * 3 + 2 := toFloat32 (clamp01 (vb v))]"
    by (simp add: populate_def)
  show ?thesis
    unfolding slotsOf_def storedVertex_def p s r o c
    using assms by (simp only: window3_update window4_update window1_update)
qed

lemma slotsOf_populate_other:
  assumes "j \<noteq> i"
  shows "slotsOf (populate out i v) j = slotsOf out j"
proof -
  have three: "i * 3 + c < j * 3 \<or> j * 3 + 3 \<le> i * 3 + c" if "c < 3" for c
    using assms that by arith
  have four: "i * 4 + c < j * 4 \<or> j * 4 + 4 \<le> i * 4 + c" if "c < 4" for c
    using assms that by arith
  have one: "i < j \<or> j + 1 \<le> i" using assms by arith
  show ?thesis
    using three [of 0] three [of 1] three [of 2] four [of 0] four [of 1] four [of 2] four [of 3] one
    by (simp add: slotsOf_def populate_def window_update_outside)
qed

text \<open>Iterations from \<open>i\<close> on leave the slots of the vertices before \<open>i\<close> alone.\<close>

lemma decodeLoop_keeps_earlier:
  "decodeLoop buffer props renderCount i byteOffset out = Inr out' \<Longrightarrow> j < i \<Longrightarrow>
   slotsOf out' j = slotsOf out j"
proof (induction buffer props renderCount i byteOffset out rule: decodeLoop.induct)
  case (1 buffer props renderCount i byteOffset out)
  show ?case
  proof (cases "i < renderCount \<and> \<not> length buffer \<le> byteOffset")
    case False
    then have "out' = out" using "1.prems" by (auto simp add: decodeLoop.simps split: if_splits)
    then show ?thesis by simp
  next
    case True
    then have lt: "i < renderCount" and inside: "\<not> length buffer \<le> byteOffset" by simp_all
    show ?thesis
    proof (cases "decodeProperties buffer props byteOffset defaultVertex")
      case (Inl e)
      then show ?thesis using "1.prems" lt inside by (simp add: decodeLoop.simps)
    next
      case (Inr res)
      obtain byteOffset' v where res: "res = (byteOffset', v)" by (cases res)
      have dec: "decodeProperties buffer props byteOffset defaultVertex = Inr (byteOffset', v)"
        using Inr res by simp
      have run: "decodeLoop buffer props renderCount (i + 1) byteOffset' (populate out i v)
                 = Inr out'"
        using "1.prems" lt inside dec by (simp add: decodeLoop.simps)
      have j1: "j < i + 1" using "1.prems" by simp
      have "slotsOf out' j = slotsOf (populate out i v) j"
        by (rule "1.IH" [OF lt inside dec refl run j1])
      moreover have "j \<noteq> i" using "1.prems" by simp
      ultimately show ?thesis by (simp add: slotsOf_populate_other)
    qed
  qed
qed

text \<open>A vertex whose record starts at or after the end of the buffer is never stored.\<close>

lemma decodeLoop_keeps_later:
  "decodeLoop buffer props renderCount i byteOffset out = Inr out' \<Longrightarrow>
   byteOffset = start + i * recordStride props \<Longrightarrow> i \<le> j \<Longrightarrow>
   length buffer \<le> start + j * recordStride props \<Longrightarrow>
   slotsOf out' j = slotsOf out j"
proof (induction buffer props renderCount i byteOffset out rule: decodeLoop.induct)
  case (1 buffer props renderCount i byteOffset out)
  show ?case
  proof (cases "i < renderCount \<and> \<not> length buffer \<le> byteOffset")
    case False
    then have "out' = out" using "1.prems" by (auto simp add: decodeLoop.simps split: if_splits)
    then show ?thesis by simp
  next
    case True
    then have lt: "i < renderCount" and inside: "\<not> length buffer \<le> byteOffset" by simp_all
    have ne: "j \<noteq> i" using inside "1.prems"(2,4) by auto
    then have le: "i + 1 \<le> j" using "1.prems"(3) by simp
    show ?thesis
    proof (cases "decodeProperties buffer props byteOffset defaultVertex")
      case (Inl e)
      then show ?thesis using "1.prems" lt inside by (simp add: decodeLoop.simps)
    next
      case (Inr res)
      obtain byteOffset' v where res: "res = (byteOffset', v)" by (cases res)
      have dec: "decodeProperties buffer props byteOffset defaultVertex = Inr (byteOffset', v)"
        using Inr res by simp
      have run: "decodeLoop buffer props renderCount (i + 1) byteOffset' (populate out i v)
                 = Inr out'"
        using "1.prems" lt inside dec by (simp add: decodeLoop.simps)
      have off: "byteOffset' = start + (i + 1) * recordStride props"
        using decodeProperties_offset [OF dec] "1.prems"(2) by simp
      have "slotsOf out' j = slotsOf (populate out i v) j"
        by (rule "1.IH" [OF lt inside dec refl run off le "1.prems"(4)])
      then show ?thesis using ne by (simp add: slotsOf_populate_other)
    qed
  qed
qed

text \<open>
  A vertex whose record starts inside the buffer is stored as the body of the loop
  decodes it, whenever the loop ends without an exception.
\<close>

lemma decodeLoop_stores:
  "decodeLoop buffer props renderCount i byteOffset out = Inr out' \<Longrightarrow>
   byteOffset = start + i * recordStride props \<Longrightarrow> i \<le> j \<Longrightarrow> j < renderCount \<Longrightarrow>
   start + j * recordStride props < length buffer \<Longrightarrow>
   shapeOf out = (c, renderCount * 3, renderCount * 3, renderCount * 4, renderCount,
                  renderCount * 3) \<Longrightarrow>
   slotsOf out' j = storedVertex (vertexAt buffer props start j)"
proof (induction buffer props renderCount i byteOffset out rule: decodeLoop.induct)
  case (1 buffer props renderCount i byteOffset out)
  have lt: "i < renderCount" using "1.prems"(3,4) by simp
  have "i * recordStride props \<le> j * recordStride props"
    using "1.prems"(3) by (rule mult_le_mono1)
  then have inside: "\<not> length buffer \<le> byteOffset"
    using "1.prems"(2,5) by linarith
  show ?case
  proof (cases "decodeProperties buffer props byteOffset defaultVertex")
    case (Inl e)
    then show ?thesis using "1.prems"(1) lt inside by (simp add: decodeLoop.simps)
  next
    case (Inr res)
    obtain byteOffset' v where res: "res = (byteOffset', v)" by (cases res)
    have dec: "decodeProperties buffer props byteOffset defaultVertex = Inr (byteOffset', v)"
      using Inr res by simp
    have run: "decodeLoop buffer props renderCount (i + 1) byteOffset' (populate out i v)
               = Inr out'"
      using "1.prems"(1) lt inside dec by (simp add: decodeLoop.simps)
    have off: "byteOffset' = start + (i + 1) * recordStride props"
      using decodeProperties_offset [OF dec] "1.prems"(2) by simp
    have shape: "shapeOf (populate out i v) =
        (c, renderCount * 3, renderCount * 3, renderCount * 4, renderCount, renderCount * 3)"
      using "1.prems"(6) by (simp add: shapeOf_populate)
    show ?thesis
    proof (cases "j = i")
      case True
      have "slotsOf out' i = slotsOf (populate out i v) i"
        by (rule decodeLoop_keeps_earlier [OF run]) simp
      also have "\<dots> = storedVertex v"
      proof (rule slotsOf_populate_same)
        show "i * 3 + 3 \<le> length (positions out)"
          using "1.prems"(6) lt by (simp add: shapeOf_def)
        show "i * 3 + 3 \<le> length (scales out)"
          using "1.prems"(6) lt by (simp add: shapeOf_def)
        show "i * 4 + 4 \<le> length (rotations out)"
          using "1.prems"(6) lt by (simp add: shapeOf_def)
        show "i + 1 \<le> length (opacities out)"
          using "1.prems"(6) lt by (simp add: shapeOf_def)
        show "i * 3 + 3 \<le> length (colors out)"
          using "1.prems"(6) lt by (simp add: shapeOf_def)
      qed
      also have "v = vertexAt buffer props start i"
        using dec "1.prems"(2) by (simp add: vertexAt_def)
      finally show ?thesis using True by simp
    next
      case False
      then have le: "i + 1 \<le> j" using "1.prems"(3) by simp
      show ?thesis
        by (rule "1.IH" [OF lt inside dec refl run off le "1.prems"(4) "1.prems"(5) shape])
    qed
  qed
qed

lemma slotsOf_allocate:
  assumes "allocate (Some n) = Inr out" and "j < nat n"
  shows "slotsOf out j = zeroSlots"
proof -
  have n: "0 \<le> n" using assms(1) by (simp add: allocate_def split: if_splits)
  have out: "out = \<lparr>vertexCount = Some n,
                 positions = replicate (nat n * 3) (Num 0),
                 scales = replicate (nat n * 3) (Num 0),
                 rotations = replicate (nat n * 4) (Num 0),
                 opacities = replicate (nat n) (Num 0),
                 colors = replicate (nat n * 3) (Num 0)\<rparr>"
    using assms(1) n by (simp add: allocate_def)
  have three: "take 3 (drop (j * 3) (replicate (nat n * 3) (Num 0 :: number)))
      = [Num 0, Num 0, Num 0]"
  proof -
    have "3 \<le> nat n * 3 - j * 3" using assms(2) by simp
    then have "min 3 (nat n * 3 - j * 3) = 3" by simp
    then show ?thesis by (simp add: numeral_eq_Suc)
  qed
  have four: "take 4 (drop (j * 4) (replicate (nat n * 4) (Num 0 :: number)))
      = [Num 0, Num 0, Num 0, Num 0]"
  proof -
    have "4 \<le> nat n * 4 - j * 4" using assms(2) by simp
    then have "min 4 (nat n * 4 - j * 4) = 4" by simp
    then show ?thesis by (simp add: numeral_eq_Suc)
  qed
  have one: "take 1 (drop j (replicate (nat n) (Num 0 :: number))) = [Num 0]"
  proof -
    have "1 \<le> nat n - j" using assms(2) by simp
    then have "min 1 (nat n - j) = 1" by simp
    then show ?thesis by simp
  qed
  show ?thesis
    unfolding slotsOf_def zeroSlots_def out
    by (simp only: ParsedSplatData.simps three four one)
qed

section \<open>Properties of \<open>parsePlyFile\<close>\<close>

subsection \<open>From the scan to the loop\<close>

lemma parsePlyFile_decodes:
  assumes "scanLoop (headerLinesOf buffer) 0 initialScan = Inr st"
    and "isBinary st" and "declaredCount st = Some N" and "0 \<le> N"
  shows "\<exists>out. allocate (Some (min N MAX_VERTEX_COUNT)) = Inr out
     \<and> shapeOf out =
         (Some (min N MAX_VERTEX_COUNT), nat (min N MAX_VERTEX_COUNT) * 3,
          nat (min N MAX_VERTEX_COUNT) * 3, nat (min N MAX_VERTEX_COUNT) * 4,
          nat (min N MAX_VERTEX_COUNT), nat (min N MAX_VERTEX_COUNT) * 3)
     \<and> parsePlyFile buffer =
         decodeLoop buffer (properties st) (nat (min N MAX_VERTEX_COUNT)) 0 (headerOffset st) out"
proof -
  have "0 \<le> min N MAX_VERTEX_COUNT" using assms(4) by (simp add: MAX_VERTEX_COUNT_def)
  from shapeOf_allocate [OF this]
  obtain out where out: "allocate (Some (min N MAX_VERTEX_COUNT)) = Inr out"
    "shapeOf out =
      (Some (min N MAX_VERTEX_COUNT), nat (min N MAX_VERTEX_COUNT) * 3,
       nat (min N MAX_VERTEX_COUNT) * 3, nat (min N MAX_VERTEX_COUNT) * 4,
       nat (min N MAX_VERTEX_COUNT), nat (min N MAX_VERTEX_COUNT) * 3)"
    by blast
  have "parsePlyFile buffer =
      decodeLoop buffer (properties st) (nat (min N MAX_VERTEX_COUNT)) 0 (headerOffset st) out"
    using assms(1,2,3) out(1) by (simp add: parsePlyFile_def Let_def Math_min_def)
  with out show ?thesis by blast
qed

subsection \<open>The sample files, decoded\<close>

lemma allocate_1:
  "allocate (Some 1) =
   Inr \<lparr>vertexCount = Some 1, positions = [Num 0, Num 0, Num 0],
        scales = [Num 0, Num 0, Num 0], rotations = [Num 0, Num 0, Num 0, Num 0],
        opacities = [Num 0], colors = [Num 0, Num 0, Num 0]\<rparr>"
  by (simp add: allocate_def numeral_eq_Suc)

lemma allocate_2:
  "allocate (Some 2) =
   Inr \<lparr>vertexCount = Some 2,
        positions = [Num 0, Num 0, Num 0, Num 0, Num 0, Num 0],
        scales = [Num 0, Num 0, Num 0, Num 0, Num 0, Num 0],
        rotations = [Num 0, Num 0, Num 0, Num 0, Num 0, Num 0, Num 0, Num 0],
        opacities = [Num 0, Num 0],
        colors = [Num 0, Num 0, Num 0, Num 0, Num 0, Num 0]\<rparr>"
  by (simp add: allocate_def numeral_eq_Suc)

lemma truncatedFile_length: "length truncatedFile = 85"
  by (simp add: truncatedFile_def)

lemma truncatedFile_float: "getFloat32 truncatedFile 81 = Inr (Num 1)"
  by (simp add: getFloat32_def truncatedFile_def float32OfBits_def Let_def)

lemma truncatedFile_record:
  "decodeProperties truncatedFile [\<lparr>name = Some ''x'', type = Some ''float''\<rparr>] 81 defaultVertex
   = Inr (85, defaultVertex\<lparr>vx := Num 1\<rparr>)"
  by (simp add: truncatedFile_float isFloatType_def switchName_def)

lemma truncatedFile_parse:
  "parsePlyFile truncatedFile =
   Inr \<lparr>vertexCount = Some 2,
        positions = [Num 1, Num 0, Num 0, Num 0, Num 0, Num 0],
        scales = [Num (13421773 / 134217728), Num (13421773 / 134217728),
                      Num (13421773 / 134217728), Num 0, Num 0, Num 0],
        rotations = [Num 1, Num 0, Num 0, Num 0, Num 0, Num 0, Num 0, Num 0],
        opacities = [Num 1, Num 0],
        colors = [Num 0.5, Num 0.5, Num 0.5, Num 0, Num 0, Num 0]\<rparr>"
proof -
  have "parsePlyFile truncatedFile =
      decodeLoop truncatedFile [\<lparr>name = Some ''x'', type = Some ''float''\<rparr>] 2 0 81
        \<lparr>vertexCount = Some 2,
         positions = [Num 0, Num 0, Num 0, Num 0, Num 0, Num 0],
         scales = [Num 0, Num 0, Num 0, Num 0, Num 0, Num 0],
         rotations = [Num 0, Num 0, Num 0, Num 0, Num 0, Num 0, Num 0, Num 0],
         opacities = [Num 0, Num 0],
         colors = [Num 0, Num 0, Num 0, Num 0, Num 0, Num 0]\<rparr>"
    by (simp add: parsePlyFile_def truncatedFile_scan Math_min_def MAX_VERTEX_COUNT_def
        allocate_2)
  also have "\<dots> =
      Inr (populate
        \<lparr>vertexCount = Some 2,
         positions = [Num 0, Num 0, Num 0, Num 0, Num 0, Num 0],
         scales = [Num 0, Num 0, Num 0, Num 0, Num 0, Num 0],
         rotations = [Num 0, Num 0, Num 0, Num 0, Num 0, Num 0, Num 0, Num 0],
         opacities = [Num 0, Num 0],
         colors = [Num 0, Num 0, Num 0, Num 0, Num 0, Num 0]\<rparr> 0 (defaultVertex\<lparr>vx := Num 1\<rparr>))"
    by (simp add: decodeLoop.simps truncatedFile_length truncatedFile_record
        del: decodeProperties.simps)
  also have "\<dots> =
      Inr \<lparr>vertexCount = Some 2,
        positions = [Num 1, Num 0, Num 0, Num 0, Num 0, Num 0],
        scales = [Num (13421773 / 134217728), Num (13421773 / 134217728),
                      Num (13421773 / 134217728), Num 0, Num 0, Num 0],
        rotations = [Num 1, Num 0, Num 0, Num 0, Num 0, Num 0, Num 0, Num 0],
        opacities = [Num 1, Num 0],
        colors = [Num 0.5, Num 0.5, Num 0.5, Num 0, Num 0, Num 0]\<rparr>"
    by (simp add: populate_def defaultVertex_def toFloat32_0 toFloat32_1 toFloat32_half
        toFloat32_tenth del: toFloat32.simps)
  finally show ?thesis .
qed

lemma truncatedFile_stride:
  "recordStride [\<lparr>name = Some ''x'', type = Some ''float''\<rparr>] = 4"
  by (simp add: recordStride_def propertyWidth_def isFloatType_def)

text \<open>
  A record cut in the middle of a float: the read runs over the end of the buffer and
  \<open>getFloat32\<close> throws. The test at the head of the vertex loop looks at the first byte
  of a record only.
\<close>

lemma partialRecordFile_parse: "parsePlyFile partialRecordFile = Inl RangeError"
proof -
  have len: "length partialRecordFile = 83" by (simp add: partialRecordFile_def)
  have "parsePlyFile partialRecordFile =
      decodeLoop partialRecordFile [\<lparr>name = Some ''x'', type = Some ''float''\<rparr>] 1 0 81
        \<lparr>vertexCount = Some 1, positions = [Num 0, Num 0, Num 0],
         scales = [Num 0, Num 0, Num 0], rotations = [Num 0, Num 0, Num 0, Num 0],
         opacities = [Num 0], colors = [Num 0, Num 0, Num 0]\<rparr>"
    by (simp add: parsePlyFile_def partialRecordFile_scan Math_min_def MAX_VERTEX_COUNT_def
        allocate_1)
  also have "\<dots> = Inl RangeError"
    by (simp add: decodeLoop.simps len getFloat32_def isFloatType_def)
  finally show ?thesis .
qed

lemma noEndHeaderFile_parse:
  "parsePlyFile noEndHeaderFile =
   Inr \<lparr>vertexCount = Some 1, positions = [Num 0, Num 0, Num 0],
        scales = [Num 0, Num 0, Num 0], rotations = [Num 0, Num 0, Num 0, Num 0],
        opacities = [Num 0], colors = [Num 0, Num 0, Num 0]\<rparr>"
proof -
  have len: "length noEndHeaderFile = 70" by (simp add: noEndHeaderFile_def)
  have "parsePlyFile noEndHeaderFile =
      decodeLoop noEndHeaderFile [\<lparr>name = Some ''x'', type = Some ''float''\<rparr>] 1 0 71
        \<lparr>vertexCount = Some 1, positions = [Num 0, Num 0, Num 0],
         scales = [Num 0, Num 0, Num 0], rotations = [Num 0, Num 0, Num 0, Num 0],
         opacities = [Num 0], colors = [Num 0, Num 0, Num 0]\<rparr>"
    by (simp add: parsePlyFile_def noEndHeaderFile_scan Math_min_def MAX_VERTEX_COUNT_def
        allocate_1)
  also have "\<dots> =
      Inr \<lparr>vertexCount = Some 1, positions = [Num 0, Num 0, Num 0],
        scales = [Num 0, Num 0, Num 0], rotations = [Num 0, Num 0, Num 0, Num 0],
        opacities = [Num 0], colors = [Num 0, Num 0, Num 0]\<rparr>"
    by (simp add: decodeLoop.simps len)
  finally show ?thesis .
qed


subsection \<open>The offset of the first record and the end of the scanned prefix\<close>









subsection \<open>A header with no \<open>end_header\<close>\<close>

text \<open>
  C2 asks for a MalformedHeader error when the scanned prefix has no \<open>end_header\<close> line.
  The source keeps \<open>endHeaderIndex = -1\<close> for that case and never tests it: with a
  \<open>format binary_little_endian 1.0\<close> line the decoder goes on, from the running sum of the
  trimmed line lengths, and returns data.
\<close>

theorem no_end_header_returns_data:
  "endHeaderIndex
     \<lparr>headerOffset = 71, endHeaderIndex = - 1, declaredCount = Some 1, isBinary = True,
      properties = [\<lparr>name = Some ''x'', type = Some ''float''\<rparr>], inVertexElement = True\<rparr> = - 1
   \<and> scanLoop (headerLinesOf noEndHeaderFile) 0 initialScan =
       Inr \<lparr>headerOffset = 71, endHeaderIndex = - 1, declaredCount = Some 1, isBinary = True,
            properties = [\<lparr>name = Some ''x'', type = Some ''float''\<rparr>],
            inVertexElement = True\<rparr>
   \<and> parsePlyFile noEndHeaderFile =
       Inr \<lparr>vertexCount = Some 1, positions = [Num 0, Num 0, Num 0],
            scales = [Num 0, Num 0, Num 0], rotations = [Num 0, Num 0, Num 0, Num 0],
            opacities = [Num 0], colors = [Num 0, Num 0, Num 0]\<rparr>"
  using noEndHeaderFile_scan noEndHeaderFile_parse by simp

subsection \<open>The count of the result\<close>





subsection \<open>A body shorter than declared\<close>

text \<open>
  A negative count: \<open>new Float32Array\<close> throws before any record is read.
\<close>

lemma negative_count_throws:
  "scanLoop (headerLinesOf buffer) 0 initialScan = Inr st \<Longrightarrow> isBinary st \<Longrightarrow>
   declaredCount st = Some N \<Longrightarrow> N < 0 \<Longrightarrow> parsePlyFile buffer = Inl RangeError"
  by (simp add: parsePlyFile_def Math_min_def allocate_def MAX_VERTEX_COUNT_def Let_def)

text \<open>
  C1, as stated: a body too short for the declared vertices gives a result whose
  \<open>vertexCount\<close> is the number of records that could be read. It does not: with two
  vertices declared and one record of four bytes in the body, one record can be read and
  the result reports two vertices.
\<close>

theorem truncated_count_counterexample:
  "scanLoop (headerLinesOf truncatedFile) 0 initialScan =
     Inr \<lparr>headerOffset = 81, endHeaderIndex = 4, declaredCount = Some 2, isBinary = True,
          properties = [\<lparr>name = Some ''x'', type = Some ''float''\<rparr>],
          inVertexElement = True\<rparr>
   \<and> length truncatedFile - 81 < 2 * recordStride [\<lparr>name = Some ''x'', type = Some ''float''\<rparr>]
   \<and> fullyReadableRecords truncatedFile
       \<lparr>headerOffset = 81, endHeaderIndex = 4, declaredCount = Some 2, isBinary = True,
        properties = [\<lparr>name = Some ''x'', type = Some ''float''\<rparr>],
        inVertexElement = True\<rparr> = 1
   \<and> parsePlyFile truncatedFile =
       Inr \<lparr>vertexCount = Some 2,
            positions = [Num 1, Num 0, Num 0, Num 0, Num 0, Num 0],
            scales = [Num (13421773 / 134217728), Num (13421773 / 134217728),
                      Num (13421773 / 134217728), Num 0, Num 0, Num 0],
            rotations = [Num 1, Num 0, Num 0, Num 0, Num 0, Num 0, Num 0, Num 0],
            opacities = [Num 1, Num 0],
            colors = [Num 0.5, Num 0.5, Num 0.5, Num 0, Num 0, Num 0]\<rparr>
   \<and> vertexCount
       \<lparr>vertexCount = Some 2,
        positions = [Num 1, Num 0, Num 0, Num 0, Num 0, Num 0],
        scales = [Num (13421773 / 134217728), Num (13421773 / 134217728),
                      Num (13421773 / 134217728), Num 0, Num 0, Num 0],
        rotations = [Num 1, Num 0, Num 0, Num 0, Num 0, Num 0, Num 0, Num 0],
        opacities = [Num 1, Num 0],
        colors = [Num 0.5, Num 0.5, Num 0.5, Num 0, Num 0, Num 0]\<rparr> \<noteq> Some 1"
  using truncatedFile_scan truncatedFile_parse
  by (simp add: fullyReadableRecords_def truncatedFile_stride truncatedFile_length)

text \<open>
  C1, amended: when the header scans, declares little-endian binary and \<open>N \<ge> 0\<close>
  vertices, and the body ends on a record boundary after \<open>k\<close> records of a positive
  stride (no record is cut), \<open>parsePlyFile\<close> throws nothing and returns a result whose
  \<open>vertexCount\<close> is \<open>min N 1000000\<close> whatever \<open>k\<close> is; of the vertices it reports, those
  before \<open>k\<close> are stored as decoded from their records and those from \<open>k\<close> on keep the
  zeros of the allocation.
\<close>

theorem truncated_body:
  assumes "scanLoop (headerLinesOf buffer) 0 initialScan = Inr st"
    and "isBinary st" and "declaredCount st = Some N" and "0 \<le> N"
    and "0 < recordStride (properties st)"
    and "length buffer = headerOffset st + k * recordStride (properties st)"
  shows "\<exists>r. parsePlyFile buffer = Inr r \<and> vertexCount r = Some (min N 1000000)
     \<and> (\<forall>j < nat (min N 1000000).
          slotsOf r j =
            (if j < k then storedVertex (vertexAt buffer (properties st) (headerOffset st) j)
             else zeroSlots))"
proof -
  let ?n = "nat (min N MAX_VERTEX_COUNT)"
  let ?s = "recordStride (properties st)"
  obtain out where alloc: "allocate (Some (min N MAX_VERTEX_COUNT)) = Inr out"
    and out: "shapeOf out =
         (Some (min N MAX_VERTEX_COUNT), ?n * 3, ?n * 3, ?n * 4, ?n, ?n * 3)"
    and run: "parsePlyFile buffer = decodeLoop buffer (properties st) ?n 0 (headerOffset st) out"
    using parsePlyFile_decodes [OF assms(1,2,3,4)] by blast
  obtain r where r: "decodeLoop buffer (properties st) ?n 0 (headerOffset st) out = Inr r"
    using decodeLoop_aligned [OF assms(6), of ?n 0 out] by blast
  have shape: "shapeOf r = shapeOf out" by (rule decodeLoop_shape [OF r])
  have start: "headerOffset st = headerOffset st + 0 * ?s" by simp
  have slots: "slotsOf r j =
      (if j < k then storedVertex (vertexAt buffer (properties st) (headerOffset st) j)
       else zeroSlots)" if j: "j < ?n" for j
  proof (cases "j < k")
    case True
    then have "j * ?s < k * ?s" using assms(5) by simp
    then have inside: "headerOffset st + j * ?s < length buffer" using assms(6) by simp
    have "slotsOf r j = storedVertex (vertexAt buffer (properties st) (headerOffset st) j)"
      by (rule decodeLoop_stores [OF r start _ j inside out]) simp
    then show ?thesis using True by simp
  next
    case False
    then have "k * ?s \<le> j * ?s" by simp
    then have outside: "length buffer \<le> headerOffset st + j * ?s" using assms(6) by simp
    have "slotsOf r j = slotsOf out j"
      by (rule decodeLoop_keeps_later [OF r start _ outside]) simp
    also have "\<dots> = zeroSlots" by (rule slotsOf_allocate [OF alloc j])
    finally show ?thesis using False by simp
  qed
  have "vertexCount r = Some (min N MAX_VERTEX_COUNT)"
    using shape out by (simp add: shapeOf_def)
  then show ?thesis using r run slots by (simp add: MAX_VERTEX_COUNT_def)
qed

theorem truncated_body_witness:
  "length truncatedFile = 81 + 1 * 4
   \<and> (\<exists>r. parsePlyFile truncatedFile = Inr r \<and> vertexCount r = Some 2
        \<and> slotsOf r 0 =
            storedVertex
              (vertexAt truncatedFile [\<lparr>name = Some ''x'', type = Some ''float''\<rparr>] 81 0)
        \<and> slotsOf r 1 = zeroSlots)"
proof -
  let ?st = "\<lparr>headerOffset = 81, endHeaderIndex = 4, declaredCount = Some 2, isBinary = True,
        properties = [\<lparr>name = Some ''x'', type = Some ''float''\<rparr>],
        inVertexElement = True\<rparr>"
  have "\<exists>r. parsePlyFile truncatedFile = Inr r \<and> vertexCount r = Some (min 2 1000000)
     \<and> (\<forall>j < nat (min 2 1000000).
          slotsOf r j =
            (if j < 1
             then storedVertex (vertexAt truncatedFile (properties ?st) (headerOffset ?st) j)
             else zeroSlots))"
    by (rule truncated_body [OF truncatedFile_scan])
      (simp_all add: truncatedFile_stride truncatedFile_length)
  then obtain r where r: "parsePlyFile truncatedFile = Inr r"
    and c: "vertexCount r = Some (min 2 1000000)"
    and s: "\<forall>j < nat (min 2 1000000).
          slotsOf r j =
            (if j < 1
             then storedVertex (vertexAt truncatedFile (properties ?st) (headerOffset ?st) j)
             else zeroSlots)"
    by blast
  have two: "nat (min 2 1000000) = 2" by simp
  have s0: "slotsOf r 0 =
      storedVertex (vertexAt truncatedFile [\<lparr>name = Some ''x'', type = Some ''float''\<rparr>] 81 0)"
    using s [rule_format, of 0] two by simp
  have s1: "slotsOf r 1 = zeroSlots"
    using s [rule_format, of 1] two by simp
  show ?thesis using r c s0 s1 by (simp add: truncatedFile_length)
qed

subsection \<open>The transforms\<close>




















end
